theory Spec2Isabelle
  imports Main
begin

section \<open>Strings\<close>

text \<open>
  A Python \<open>str\<close> is modelled as a \<^typ>\<open>string\<close>; a \<^typ>\<open>char\<close> stands for a code
  point below 256. The three string methods the gateways use are \<open>split('\n', 1)\<close>,
  \<open>strip()\<close> and \<open>lower()\<close>.
\<close>

definition nl :: char where
  "nl = CHR 0x0A"

text \<open>The code points below 256 for which \<open>str.isspace\<close> holds.\<close>

definition isspace :: "char \<Rightarrow> bool" where
  "isspace c = (c \<in> set [CHR 0x09, CHR 0x0A, CHR 0x0B, CHR 0x0C, CHR 0x0D,
                          CHR 0x1C, CHR 0x1D, CHR 0x1E, CHR 0x1F, CHR 0x20,
                          CHR 0x85, CHR 0xA0])"

definition lstrip :: "string \<Rightarrow> string" where
  "lstrip s = dropWhile isspace s"

definition rstrip :: "string \<Rightarrow> string" where
  "rstrip s = rev (dropWhile isspace (rev s))"

definition strip :: "string \<Rightarrow> string" where
  "strip s = rstrip (lstrip s)"

text \<open>\<open>str.lower\<close> on code points below 256: A-Z and the Latin-1 capitals.\<close>

definition upper_chars :: string where
  "upper_chars = ''ABCDEFGHIJKLMNOPQRSTUVWXYZ'' @
     [CHR 0xC0, CHR 0xC1, CHR 0xC2, CHR 0xC3, CHR 0xC4, CHR 0xC5, CHR 0xC6, CHR 0xC7,
      CHR 0xC8, CHR 0xC9, CHR 0xCA, CHR 0xCB, CHR 0xCC, CHR 0xCD, CHR 0xCE, CHR 0xCF,
      CHR 0xD0, CHR 0xD1, CHR 0xD2, CHR 0xD3, CHR 0xD4, CHR 0xD5, CHR 0xD6,
      CHR 0xD8, CHR 0xD9, CHR 0xDA, CHR 0xDB, CHR 0xDC, CHR 0xDD, CHR 0xDE]"

definition lower_chars :: string where
  "lower_chars = ''abcdefghijklmnopqrstuvwxyz'' @
     [CHR 0xE0, CHR 0xE1, CHR 0xE2, CHR 0xE3, CHR 0xE4, CHR 0xE5, CHR 0xE6, CHR 0xE7,
      CHR 0xE8, CHR 0xE9, CHR 0xEA, CHR 0xEB, CHR 0xEC, CHR 0xED, CHR 0xEE, CHR 0xEF,
      CHR 0xF0, CHR 0xF1, CHR 0xF2, CHR 0xF3, CHR 0xF4, CHR 0xF5, CHR 0xF6,
      CHR 0xF8, CHR 0xF9, CHR 0xFA, CHR 0xFB, CHR 0xFC, CHR 0xFD, CHR 0xFE]"

definition lower_char :: "char \<Rightarrow> char" where
  "lower_char c = (case map_of (zip upper_chars lower_chars) c of
                     None \<Rightarrow> c | Some l \<Rightarrow> l)"

definition lower :: "string \<Rightarrow> string" where
  "lower s = map lower_char s"

text \<open>
  \<open>content.split('\n', 1)\<close>: the whole string when it has no line break, else the part
  before the first line break and the part after it. The result always has one or two
  elements; the \<open>[]\<close> branch of the \<open>case\<close> is never taken.
\<close>

fun split_nl1 :: "string \<Rightarrow> string list" where
  "split_nl1 [] = [[]]"
| "split_nl1 (c # cs) =
     (if c = nl then [[], cs]
      else (case split_nl1 cs of [] \<Rightarrow> [[c]] | p # ps \<Rightarrow> (c # p) # ps))"

section \<open>Data model\<close>

record ModelResponse =
  agrees :: bool
  response :: string

datatype error = IndexError

text \<open>
  A \<open>dict\<close> keeps its keys in insertion order: an association list. Assigning to a key
  that is present replaces the value in place; a new key goes to the end.
\<close>

type_synonym ('k, 'v) dict = "('k \<times> 'v) list"

fun dict_set :: "('k, 'v) dict \<Rightarrow> 'k \<Rightarrow> 'v \<Rightarrow> ('k, 'v) dict" where
  "dict_set [] k v = [(k, v)]"
| "dict_set ((k', v') # d) k v =
     (if k' = k then (k, v) # d else (k', v') # dict_set d k v)"

definition dict_keys :: "('k, 'v) dict \<Rightarrow> 'k list" where
  "dict_keys d = map fst d"

definition dict_values :: "('k, 'v) dict \<Rightarrow> 'v list" where
  "dict_values d = map snd d"

text \<open>
  The remote call behind a gateway is a function of the prompt and of the state \<open>'w\<close> of
  the outside world, which it may change; what it returns is the raw text of the reply.
  The call itself is taken to return: a remote call that raises is not modelled.
\<close>

type_synonym 'w remote = "string \<Rightarrow> 'w \<Rightarrow> string \<times> 'w"

type_synonym 'w model_func = "string \<Rightarrow> 'w \<Rightarrow> ModelResponse \<times> 'w"

text \<open>
  The attributes of an \<open>LLMConsensus\<close> object. A Python \<open>dict\<close> has no two equal keys:
  where a result depends on it, \<open>distinct (dict_keys (models self))\<close> is assumed.
\<close>

record 'w LLMConsensus =
  models :: "(string, 'w model_func) dict"
  max_iterations :: int

section \<open>Gateways\<close>

text \<open>
  The body of the \<open>try\<close> block shared by \<open>_ask_chatgpt\<close>, \<open>_ask_gemini\<close> and
  \<open>_ask_claude\<close>. \<open>parts[0]\<close> raises on an empty list.
\<close>

definition parse_try :: "string \<Rightarrow> error + ModelResponse" where
  "parse_try content =
     (let parts = split_nl1 content in
      case parts of
        [] \<Rightarrow> Inl IndexError
      | p0 # rest \<Rightarrow>
          Inr \<lparr>agrees = (lower (strip p0) = ''true''),
               response = (case rest of [] \<Rightarrow> content | p1 # _ \<Rightarrow> strip p1)\<rparr>)"

text \<open>The \<open>except\<close> clause: whatever was raised, the raw content is the reply.\<close>

definition on_except :: "string \<Rightarrow> error \<Rightarrow> ModelResponse" where
  "on_except content e = \<lparr>agrees = False, response = content\<rparr>"

text \<open>The \<open>try\<close> with its bare \<open>except\<close>.\<close>

definition parse_content :: "string \<Rightarrow> ModelResponse" where
  "parse_content content =
     (case parse_try content of
        Inr r \<Rightarrow> r
      | Inl e \<Rightarrow> on_except content e)"

definition ask_chatgpt :: "'w remote \<Rightarrow> 'w model_func" where
  "ask_chatgpt remote prompt w =
     (let (content, w') = remote prompt w in (parse_content content, w'))"

definition ask_gemini :: "'w remote \<Rightarrow> 'w model_func" where
  "ask_gemini remote prompt w =
     (let (content, w') = remote prompt w in (parse_content content, w'))"

definition ask_claude :: "'w remote \<Rightarrow> 'w model_func" where
  "ask_claude remote prompt w =
     (let (content, w') = remote prompt w in (parse_content content, w'))"

text \<open>\<open>__init__\<close>, with the three remote calls as parameters.\<close>

definition init :: "'w remote \<Rightarrow> 'w remote \<Rightarrow> 'w remote \<Rightarrow> 'w LLMConsensus" where
  "init chatgpt gemini claude =
     \<lparr>models = [(''ChatGPT'', ask_chatgpt chatgpt),
                (''Gemini'', ask_gemini gemini),
                (''Claude'', ask_claude claude)],
      max_iterations = 5\<rparr>"

section \<open>Prompts\<close>

text \<open>The \<open>for model, resp in responses.items()\<close> loop of both prompt builders.\<close>

fun list_responses :: "(string, ModelResponse) dict \<Rightarrow> string" where
  "list_responses [] = []"
| "list_responses ((model, resp) # rs) =
     model @ '':\<newline>'' @ response resp @ ''\<newline>\<newline>'' @ list_responses rs"

definition prompt_header :: "string \<Rightarrow> (string, ModelResponse) dict \<Rightarrow> string" where
  "prompt_header question rs =
     ''Original question: '' @ question @ ''\<newline>\<newline>'' @
     ''Here are the responses from other AI models:\<newline>\<newline>'' @
     list_responses rs"

definition merge_instructions :: string where
  "merge_instructions =
     ''Please merge these responses into a single, comprehensive answer that combines the best aspects of each response. \<newline>'' @
     ''Your response should be in the following format:\<newline>'' @
     ''\<newline>'' @
     ''True\<newline>'' @
     ''[Merged response that combines the best aspects of all previous responses]\<newline>'' @
     ''\<newline>'' @
     ''The first line must be 'True' to indicate you're providing a merged response.''"

definition feedback_instructions :: string where
  "feedback_instructions =
     ''Please review these responses and provide your feedback in the following format:\<newline>'' @
     ''\<newline>'' @
     ''True\<newline>'' @
     ''[Your merged response that combines the best aspects of all responses]\<newline>'' @
     ''\<newline>'' @
     ''OR\<newline>'' @
     ''\<newline>'' @
     ''False\<newline>'' @
     ''[Your detailed response explaining why you disagree and what should be changed]\<newline>'' @
     ''\<newline>'' @
     ''The first line must be exactly 'True' or 'False' to indicate whether you agree with the merged approach.''"

definition create_merge_prompt :: "string \<Rightarrow> (string, ModelResponse) dict \<Rightarrow> string" where
  "create_merge_prompt question rs = prompt_header question rs @ merge_instructions"

definition create_feedback_prompt :: "string \<Rightarrow> (string, ModelResponse) dict \<Rightarrow> string" where
  "create_feedback_prompt question rs = prompt_header question rs @ feedback_instructions"

section \<open>Consensus\<close>

definition check_consensus :: "(string, ModelResponse) dict \<Rightarrow> bool" where
  "check_consensus rs = list_all agrees (dict_values rs)"

text \<open>
  The local variables of \<open>get_consensus\<close>, the state of the outside world, and a trace of
  what the run did: the round announced on line 124, each gateway call of line 138 with
  its model name, prompt and reply, each assignment of line 145, and which of the two
  exits was taken (lines 149 and 154). The prints of lines 137, 140 and 141 echo a model
  name and a reply that the trace already holds.
\<close>

datatype event =
    Iteration int
  | Asked string string ModelResponse
  | Stored string
  | Consensus_reached
  | Max_iterations_reached

record 'w locals =
  iteration :: int
  responses :: "(string, ModelResponse) dict"
  merged_response :: "string option"
  world :: 'w
  trace :: "event list"

definition select_prompt :: "string \<Rightarrow> int \<Rightarrow> (string, ModelResponse) dict \<Rightarrow> string" where
  "select_prompt question i rs =
     (if i = 0 then question
      else if i = 1 then create_merge_prompt question rs
      else create_feedback_prompt question rs)"

text \<open>
  \<open>model_name == list(self.models.keys())[0]\<close>. It is evaluated inside the loop over
  \<open>self.models\<close>, where the key list is not empty.
\<close>

definition is_first_key :: "'w LLMConsensus \<Rightarrow> string \<Rightarrow> bool" where
  "is_first_key self model_name =
     (case dict_keys (models self) of [] \<Rightarrow> False | k # _ \<Rightarrow> model_name = k)"

text \<open>One pass through the body of the \<open>for\<close> loop (lines 128 to 145).\<close>

definition ask_model ::
  "'w LLMConsensus \<Rightarrow> string \<Rightarrow> string \<times> 'w model_func \<Rightarrow> 'w locals \<Rightarrow> 'w locals" where
  "ask_model self question m st =
     (let model_name = fst m;
          model_func = snd m;
          prompt = select_prompt question (iteration st) (responses st);
          reply = model_func prompt (world st);
          st1 = st\<lparr>responses := dict_set (responses st) model_name (fst reply),
                    world := snd reply,
                    trace := trace st @ [Asked model_name prompt (fst reply)]\<rparr>
      in if iteration st = 1 \<and> is_first_key self model_name
         then st1\<lparr>merged_response := Some (response (fst reply)),
                  trace := trace st1 @ [Stored (response (fst reply))]\<rparr>
         else st1)"

fun for_models ::
  "'w LLMConsensus \<Rightarrow> string \<Rightarrow> (string, 'w model_func) dict \<Rightarrow> 'w locals \<Rightarrow> 'w locals" where
  "for_models self question [] st = st"
| "for_models self question (m # ms) st =
     for_models self question ms (ask_model self question m st)"

text \<open>One round: lines 124 to 145.\<close>

definition round_body :: "'w LLMConsensus \<Rightarrow> string \<Rightarrow> 'w locals \<Rightarrow> 'w locals" where
  "round_body self question st =
     for_models self question (models self)
       (st\<lparr>trace := trace st @ [Iteration (iteration st)]\<rparr>)"

text \<open>\<open>list(responses.values())[0]["response"]\<close>\<close>

definition first_response :: "(string, ModelResponse) dict \<Rightarrow> error + string" where
  "first_response rs =
     (case dict_values rs of [] \<Rightarrow> Inl IndexError | r # _ \<Rightarrow> Inr (response r))"

text \<open>
  \<open>merged_response if merged_response else list(responses.values())[0]["response"]\<close>:
  \<open>None\<close> and the empty string are both false.
\<close>

definition final_answer :: "'w locals \<Rightarrow> error + string" where
  "final_answer st =
     (case merged_response st of
        None \<Rightarrow> first_response (responses st)
      | Some m \<Rightarrow> if m \<noteq> [] then Inr m else first_response (responses st))"

function while_loop ::
  "'w LLMConsensus \<Rightarrow> string \<Rightarrow> 'w locals \<Rightarrow> (error + string) \<times> 'w locals" where
  "while_loop self question st =
     (if iteration st < max_iterations self then
        (let st1 = round_body self question st in
         if check_consensus (responses st1)
         then (final_answer st1, st1\<lparr>trace := trace st1 @ [Consensus_reached]\<rparr>)
         else while_loop self question (st1\<lparr>iteration := iteration st + 1\<rparr>))
      else (final_answer st, st\<lparr>trace := trace st @ [Max_iterations_reached]\<rparr>))"
  by pat_completeness auto
termination
  by (relation "measure (\<lambda>(self, question, st). nat (max_iterations self - iteration st))")
     auto

declare while_loop.simps [simp del]

definition initial :: "'w \<Rightarrow> 'w locals" where
  "initial w = \<lparr>iteration = 0, responses = [], merged_response = None,
                world = w, trace = []\<rparr>"

definition run :: "'w LLMConsensus \<Rightarrow> string \<Rightarrow> 'w \<Rightarrow> (error + string) \<times> 'w locals" where
  "run self question w = while_loop self question (initial w)"

definition get_consensus :: "'w LLMConsensus \<Rightarrow> string \<Rightarrow> 'w \<Rightarrow> error + string" where
  "get_consensus self question w = fst (run self question w)"

section \<open>Observing a run\<close>

text \<open>What a trace says: the rounds announced, the values assigned to
  \<open>merged_response\<close>, and the gateway calls made, each in order.\<close>

fun iterations :: "event list \<Rightarrow> int list" where
  "iterations [] = []"
| "iterations (Iteration i # es) = i # iterations es"
| "iterations (e # es) = iterations es"

fun stored :: "event list \<Rightarrow> string list" where
  "stored [] = []"
| "stored (Stored t # es) = t # stored es"
| "stored (e # es) = stored es"

fun asked :: "event list \<Rightarrow> (string \<times> string \<times> ModelResponse) list" where
  "asked [] = []"
| "asked (Asked n p r # es) = (n, p, r) # asked es"
| "asked (e # es) = asked es"

text \<open>
  The locals at the head of the \<open>while\<close> loop after \<open>n\<close> rounds that did not end in
  consensus: \<open>n\<close> times the round and \<open>iteration += 1\<close>.
\<close>

fun loop_head :: "'w LLMConsensus \<Rightarrow> string \<Rightarrow> 'w \<Rightarrow> nat \<Rightarrow> 'w locals" where
  "loop_head self question w 0 = initial w"
| "loop_head self question w (Suc n) =
     (let st = loop_head self question w n
      in (round_body self question st)\<lparr>iteration := iteration st + 1\<rparr>)"

text \<open>The locals at the end of round \<open>n\<close>, before the consensus check.\<close>

definition round_end :: "'w LLMConsensus \<Rightarrow> string \<Rightarrow> 'w \<Rightarrow> nat \<Rightarrow> 'w locals" where
  "round_end self question w n = round_body self question (loop_head self question w n)"

text \<open>
  The locals just before the \<open>k\<close>-th pass through the \<open>for\<close> loop in round \<open>n\<close>:
  the round has been announced and the first \<open>k\<close> registered models have been asked.
\<close>

definition before_call :: "'w LLMConsensus \<Rightarrow> string \<Rightarrow> 'w \<Rightarrow> nat \<Rightarrow> nat \<Rightarrow> 'w locals" where
  "before_call self question w n k =
     for_models self question (take k (models self))
       ((loop_head self question w n)
          \<lparr>trace := trace (loop_head self question w n) @
                     [Iteration (iteration (loop_head self question w n))]\<rparr>)"

text \<open>The reply a gateway gives when it is asked in the state \<open>st\<close>.\<close>

definition reply_in :: "string \<Rightarrow> 'w model_func \<Rightarrow> 'w locals \<Rightarrow> ModelResponse" where
  "reply_in question model_func st =
     fst (model_func (select_prompt question (iteration st) (responses st)) (world st))"

text \<open>
  The candidate answer of a run: the text of the reply that the first-registered gateway
  gives in the round with iteration index 1, if a gateway is registered.
\<close>

definition candidate_answer :: "'w LLMConsensus \<Rightarrow> string \<Rightarrow> 'w \<Rightarrow> string option" where
  "candidate_answer self question w =
     (case models self of
        [] \<Rightarrow> None
      | m # _ \<Rightarrow> Some (response (reply_in question (snd m) (loop_head self question w 1))))"

text \<open>An optional value as a list of at most one element.\<close>

definition option_list :: "'a option \<Rightarrow> 'a list" where
  "option_list x = (case x of None \<Rightarrow> [] | Some y \<Rightarrow> [y])"

section \<open>Scripted gateways\<close>

text \<open>
  Remote calls for concrete runs. The outside world is the number of remote calls made so
  far; a scripted remote ignores the prompt and answers call number \<open>w\<close> with
  \<open>script w\<close>. With the three gateways of \<open>__init__\<close>, round \<open>n\<close> makes the calls
  \<open>3 n\<close>, \<open>3 n + 1\<close> and \<open>3 n + 2\<close>.
\<close>

definition scripted :: "(nat \<Rightarrow> string) \<Rightarrow> nat remote" where
  "scripted script prompt w = (script w, Suc w)"

text \<open>Every reply agrees; the text changes after round 0.\<close>

definition eager_script :: "nat \<Rightarrow> string" where
  "eager_script w = (if w < 3 then ''True\<newline>first'' else ''True\<newline>merged'')"

definition eager :: "nat LLMConsensus" where
  "eager = init (scripted eager_script) (scripted eager_script) (scripted eager_script)"

text \<open>
  Every reply disagrees; the reply of the first gateway in round 1 (call 3) has an empty
  text.
\<close>

definition stubborn_script :: "nat \<Rightarrow> string" where
  "stubborn_script w = (if w = 3 then ''False\<newline>'' else ''False\<newline>objection'')"

definition stubborn :: "nat LLMConsensus" where
  "stubborn = init (scripted stubborn_script) (scripted stubborn_script) (scripted stubborn_script)"

text \<open>Every reply disagrees; the text changes after round 0.\<close>

definition revising_script :: "nat \<Rightarrow> string" where
  "revising_script w = (if w < 3 then ''False\<newline>old'' else ''False\<newline>new'')"

definition revising :: "nat LLMConsensus" where
  "revising = init (scripted revising_script) (scripted revising_script) (scripted revising_script)"

text \<open>Attributes assigned after construction.\<close>

definition single_round :: "nat LLMConsensus" where
  "single_round = stubborn\<lparr>max_iterations := 1\<rparr>"

definition no_models :: "nat LLMConsensus" where
  "no_models = eager\<lparr>models := []\<rparr>"

definition no_rounds :: "nat LLMConsensus" where
  "no_rounds = eager\<lparr>max_iterations := 0\<rparr>"

definition old_reply :: ModelResponse where
  "old_reply = \<lparr>agrees = False, response = ''old''\<rparr>"

definition new_reply :: ModelResponse where
  "new_reply = \<lparr>agrees = False, response = ''new''\<rparr>"

section \<open>The gateway parse\<close>

lemma split_nl1_eq:
  "split_nl1 s = (if nl \<in> set s
                  then [takeWhile (\<lambda>c. c \<noteq> nl) s, tl (dropWhile (\<lambda>c. c \<noteq> nl) s)]
                  else [s])"
  by (induction s) auto

lemma takeWhile_no_nl: "nl \<notin> set c \<Longrightarrow> takeWhile (\<lambda>x. x \<noteq> nl) c = c"
  by (induction c) auto

lemma parse_try_eq:
  "parse_try c =
     Inr \<lparr>agrees = (lower (strip (takeWhile (\<lambda>x. x \<noteq> nl) c)) = ''true''),
          response = (if nl \<in> set c then strip (tl (dropWhile (\<lambda>x. x \<noteq> nl) c)) else c)\<rparr>"
  by (simp add: parse_try_def split_nl1_eq takeWhile_no_nl)

lemmas parse_eval =
  parse_content_def parse_try_def on_except_def nl_def strip_def lstrip_def rstrip_def
  isspace_def lower_def lower_char_def upper_chars_def lower_chars_def

text \<open>
  C4, as the claim states it, fails: the text is not the remainder after the first line
  break but the remainder with the white space at both ends removed. The raw output
  \<open>"True\n foo"\<close> has the remainder \<open>" foo"\<close> and parses to the text \<open>"foo"\<close>.
\<close>

theorem parse_text_is_not_the_remainder:
  "response (parse_content ''True\<newline> foo'') = ''foo'' \<and>
   tl (dropWhile (\<lambda>c. c \<noteq> nl) ''True\<newline> foo'') = '' foo''"
  by (simp add: parse_eval)

text \<open>
  C4, amended: for every raw output, \<open>agrees\<close> is whether the text before the first line
  break, stripped and lowercased, equals \<open>"true"\<close>; the text is the remainder after the
  first line break with the white space at both ends stripped when there is a line break,
  and the whole raw output otherwise. \<open>"True\nfoo bar"\<close> parses to agreement with the text
  \<open>"foo bar"\<close>, \<open>"garbage with no match"\<close> to disagreement with itself as the text, and
  \<open>" TRUE \nX"\<close> to agreement. The \<open>except\<close> clause yields disagreement with the raw
  output as the text, and on a string the \<open>try\<close> block raises nothing.
\<close>

theorem parse_content_spec:
  "agrees (parse_content c) = (lower (strip (takeWhile (\<lambda>x. x \<noteq> nl) c)) = ''true'') \<and>
   response (parse_content c) =
     (if nl \<in> set c then strip (tl (dropWhile (\<lambda>x. x \<noteq> nl) c)) else c) \<and>
   parse_content ''True\<newline>foo bar'' = \<lparr>agrees = True, response = ''foo bar''\<rparr> \<and>
   parse_content ''garbage with no match'' =
     \<lparr>agrees = False, response = ''garbage with no match''\<rparr> \<and>
   agrees (parse_content '' TRUE \<newline>X'') \<and>
   on_except c e = \<lparr>agrees = False, response = c\<rparr> \<and>
   parse_try c \<noteq> Inl e"
proof -
  have general: "parse_content c =
      \<lparr>agrees = (lower (strip (takeWhile (\<lambda>x. x \<noteq> nl) c)) = ''true''),
       response = (if nl \<in> set c then strip (tl (dropWhile (\<lambda>x. x \<noteq> nl) c)) else c)\<rparr>"
    by (simp add: parse_content_def parse_try_eq)
  have ex1: "parse_content ''True\<newline>foo bar'' = \<lparr>agrees = True, response = ''foo bar''\<rparr>"
    by (simp add: parse_eval)
  have ex2: "parse_content ''garbage with no match'' =
      \<lparr>agrees = False, response = ''garbage with no match''\<rparr>"
    by (simp add: parse_eval)
  have ex3: "agrees (parse_content '' TRUE \<newline>X'')"
    by (simp add: parse_eval)
  have handler: "on_except c e = \<lparr>agrees = False, response = c\<rparr>"
    by (simp add: on_except_def)
  have no_raise: "parse_try c \<noteq> Inl e"
    by (simp add: parse_try_eq)
  from general ex1 ex2 ex3 handler no_raise show ?thesis
    by simp
qed

theorem parse_content_spec_witness:
  "agrees (parse_content ''tRuE \<newline>  a b  '') \<and>
   response (parse_content ''tRuE \<newline>  a b  '') = ''a b''"
  using parse_content_spec [of "''tRuE \<newline>  a b  ''" IndexError]
  by (simp add: nl_def strip_def lstrip_def rstrip_def isspace_def lower_def lower_char_def
        upper_chars_def lower_chars_def)

section \<open>The consensus check\<close>

text \<open>
  C6: the consensus check is true exactly when every response of the round has its
  \<open>agrees\<close> flag set, and it is true of the empty round.
\<close>

theorem check_consensus_iff_all_agree:
  "(check_consensus rs \<longleftrightarrow> (\<forall>r \<in> set (dict_values rs). agrees r)) \<and> check_consensus []"
  by (simp add: check_consensus_def list_all_iff dict_values_def)

theorem check_consensus_iff_all_agree_witness:
  "check_consensus [(''ChatGPT'', \<lparr>agrees = True, response = ''a''\<rparr>),
                    (''Gemini'', \<lparr>agrees = True, response = ''b''\<rparr>)] \<and>
   \<not> check_consensus [(''ChatGPT'', \<lparr>agrees = True, response = ''a''\<rparr>),
                      (''Gemini'', \<lparr>agrees = False, response = ''b''\<rparr>)]"
  using check_consensus_iff_all_agree
          [of "[(''ChatGPT'', \<lparr>agrees = True, response = ''a''\<rparr>),
                (''Gemini'', \<lparr>agrees = True, response = ''b''\<rparr>)]"]
        check_consensus_iff_all_agree
          [of "[(''ChatGPT'', \<lparr>agrees = True, response = ''a''\<rparr>),
                (''Gemini'', \<lparr>agrees = False, response = ''b''\<rparr>)]"]
  by (simp add: dict_values_def)

section \<open>Dictionaries and traces\<close>

lemma iterations_append [simp]: "iterations (xs @ ys) = iterations xs @ iterations ys"
  by (induction xs rule: iterations.induct) simp_all

lemma stored_append [simp]: "stored (xs @ ys) = stored xs @ stored ys"
  by (induction xs rule: stored.induct) simp_all

lemma asked_append [simp]: "asked (xs @ ys) = asked xs @ asked ys"
  by (induction xs rule: asked.induct) simp_all

lemma dict_keys_simps [simp]:
  "dict_keys [] = []" "dict_keys (x # d) = fst x # dict_keys d"
  by (simp_all add: dict_keys_def)

lemma dict_values_simps [simp]:
  "dict_values [] = []" "dict_values (x # d) = snd x # dict_values d"
  by (simp_all add: dict_values_def)

lemma dict_keys_dict_set_mem:
  "k \<in> set (dict_keys d) \<Longrightarrow> dict_keys (dict_set d k v) = dict_keys d"
  by (induction d) auto

lemma dict_keys_dict_set_new:
  "k \<notin> set (dict_keys d) \<Longrightarrow> dict_keys (dict_set d k v) = dict_keys d @ [k]"
  by (induction d) auto

lemma map_of_dict_set: "map_of (dict_set d k v) = (map_of d)(k \<mapsto> v)"
  by (induction d) auto

lemma set_values_dict_set:
  "set (dict_values (dict_set d k v)) \<subseteq> insert v (set (dict_values d))"
  by (induction d) (auto split: if_splits)

lemma take_dict_set:
  "k \<in> set (dict_keys d) \<Longrightarrow> k \<notin> set (take n (dict_keys d)) \<Longrightarrow>
   take n (dict_set d k v) = take n d"
proof (induction d arbitrary: n)
  case Nil
  then show ?case by simp
next
  case (Cons x d)
  then show ?case by (cases n; cases x) auto
qed

lemma drop_dict_set:
  "k \<in> set (take n (dict_keys d)) \<Longrightarrow> drop n (dict_set d k v) = drop n d"
proof (induction d arbitrary: n)
  case Nil
  then show ?case by simp
next
  case (Cons x d)
  then show ?case by (cases n; cases x) auto
qed

lemma responses_ask_model [simp]:
  "responses (ask_model self q m st) = dict_set (responses st) (fst m) (reply_in q (snd m) st)"
  by (simp add: ask_model_def Let_def reply_in_def)

lemma iteration_ask_model [simp]: "iteration (ask_model self q m st) = iteration st"
  by (simp add: ask_model_def Let_def)

lemma merged_ask_model [simp]:
  "merged_response (ask_model self q m st) =
     (if iteration st = 1 \<and> is_first_key self (fst m)
      then Some (response (reply_in q (snd m) st)) else merged_response st)"
  by (simp add: ask_model_def Let_def reply_in_def)

lemma iterations_ask_model [simp]:
  "iterations (trace (ask_model self q m st)) = iterations (trace st)"
  by (simp add: ask_model_def Let_def)

lemma stored_ask_model [simp]:
  "stored (trace (ask_model self q m st)) =
     stored (trace st) @
     (if iteration st = 1 \<and> is_first_key self (fst m)
      then [response (reply_in q (snd m) st)] else [])"
  by (simp add: ask_model_def Let_def reply_in_def)

lemma asked_ask_model [simp]:
  "asked (trace (ask_model self q m st)) =
     asked (trace st) @
     [(fst m, select_prompt q (iteration st) (responses st), reply_in q (snd m) st)]"
  by (simp add: ask_model_def Let_def reply_in_def)

lemma iteration_for_models [simp]: "iteration (for_models self q ms st) = iteration st"
  by (induction ms arbitrary: st) simp_all

lemma iterations_for_models [simp]:
  "iterations (trace (for_models self q ms st)) = iterations (trace st)"
  by (induction ms arbitrary: st) simp_all

lemma asked_names_for_models:
  "map fst (asked (trace (for_models self q ms st))) = map fst (asked (trace st)) @ dict_keys ms"
  by (induction ms arbitrary: st) simp_all

lemma for_models_append:
  "for_models self q (ms @ ms') st = for_models self q ms' (for_models self q ms st)"
  by (induction ms arbitrary: st) simp_all

lemma merged_for_models_other_round:
  "iteration st \<noteq> 1 \<Longrightarrow> merged_response (for_models self q ms st) = merged_response st"
  by (induction ms arbitrary: st) simp_all

lemma stored_for_models_other_round:
  "iteration st \<noteq> 1 \<Longrightarrow> stored (trace (for_models self q ms st)) = stored (trace st)"
  by (induction ms arbitrary: st) simp_all

lemma merged_for_models_not_first:
  "\<forall>m \<in> set ms. \<not> is_first_key self (fst m) \<Longrightarrow>
   merged_response (for_models self q ms st) = merged_response st"
  by (induction ms arbitrary: st) simp_all

lemma stored_for_models_not_first:
  "\<forall>m \<in> set ms. \<not> is_first_key self (fst m) \<Longrightarrow>
   stored (trace (for_models self q ms st)) = stored (trace st)"
  by (induction ms arbitrary: st) simp_all

lemma keys_for_models_same:
  "set (dict_keys ms) \<subseteq> set (dict_keys (responses st)) \<Longrightarrow>
   dict_keys (responses (for_models self q ms st)) = dict_keys (responses st)"
  by (induction ms arbitrary: st) (simp_all add: dict_keys_dict_set_mem)

lemma keys_for_models_fresh:
  "distinct (dict_keys ms) \<Longrightarrow> set (dict_keys ms) \<inter> set (dict_keys (responses st)) = {} \<Longrightarrow>
   dict_keys (responses (for_models self q ms st)) = dict_keys (responses st) @ dict_keys ms"
  by (induction ms arbitrary: st) (simp_all add: dict_keys_dict_set_new)

lemma all_agree_for_models:
  "\<forall>m \<in> set ms. \<forall>p w. agrees (fst (snd m p w)) \<Longrightarrow>
   \<forall>r \<in> set (dict_values (responses st)). agrees r \<Longrightarrow>
   \<forall>r \<in> set (dict_values (responses (for_models self q ms st))). agrees r"
proof (induction ms arbitrary: st)
  case Nil
  then show ?case by simp
next
  case (Cons m ms)
  have a: "\<forall>r \<in> set (dict_values (responses (ask_model self q m st))). agrees r"
    using Cons.prems set_values_dict_set[of "responses st" "fst m" "reply_in q (snd m) st"]
    by (auto simp: reply_in_def)
  have b: "\<forall>m \<in> set ms. \<forall>p w. agrees (fst (snd m p w))"
    using Cons.prems by simp
  show ?case using Cons.IH[OF b a] by simp
qed

lemma map_of_for_models_other:
  "k \<notin> set (dict_keys ms) \<Longrightarrow>
   map_of (responses (for_models self q ms st)) k = map_of (responses st) k"
  by (induction ms arbitrary: st) (simp_all add: map_of_dict_set)

lemma disagree_for_models:
  "distinct (dict_keys ms) \<Longrightarrow> (k, f) \<in> set ms \<Longrightarrow> \<forall>p w. \<not> agrees (fst (f p w)) \<Longrightarrow>
   \<exists>r. map_of (responses (for_models self q ms st)) k = Some r \<and> \<not> agrees r"
proof (induction ms arbitrary: st)
  case Nil
  then show ?case by simp
next
  case (Cons m ms)
  show ?case
  proof (cases "m = (k, f)")
    case True
    with Cons.prems have "k \<notin> set (dict_keys ms)" by simp
    then show ?thesis using True Cons.prems(3)
      by (simp add: map_of_for_models_other map_of_dict_set reply_in_def)
  next
    case False
    with Cons show ?thesis by simp
  qed
qed

lemma no_consensus_for_models:
  assumes "distinct (dict_keys ms)" "(k, f) \<in> set ms" "\<forall>p w. \<not> agrees (fst (f p w))"
  shows "\<not> check_consensus (responses (for_models self q ms st))"
proof -
  obtain r where r: "map_of (responses (for_models self q ms st)) k = Some r" "\<not> agrees r"
    using disagree_for_models[OF assms] by blast
  then have "r \<in> set (dict_values (responses (for_models self q ms st)))"
    by (force simp: dict_values_def dest: map_of_SomeD)
  with r show ?thesis
    by (auto simp: check_consensus_def list_all_iff)
qed

lemma head_for_models:
  "responses st = (k0, r0) # d \<Longrightarrow> k0 \<notin> set (dict_keys ms) \<Longrightarrow>
   \<exists>d'. responses (for_models self q ms st) = (k0, r0) # d'"
  by (induction ms arbitrary: st d) auto

section \<open>The loop\<close>

lemma reply_in_trace_update [simp]: "reply_in q f (st\<lparr>trace := t\<rparr>) = reply_in q f st"
  by (simp add: reply_in_def)

lemma reply_in_iteration_update:
  "reply_in q f (st\<lparr>iteration := i\<rparr>) =
     fst (f (select_prompt q i (responses st)) (world st))"
  by (simp add: reply_in_def)

lemma iteration_round_body [simp]: "iteration (round_body self q st) = iteration st"
  by (simp add: round_body_def)

lemma iterations_round_body [simp]:
  "iterations (trace (round_body self q st)) = iterations (trace st) @ [iteration st]"
  by (simp add: round_body_def)

lemma iteration_loop_head [simp]: "iteration (loop_head self q w n) = int n"
  by (induction n) (simp_all add: initial_def Let_def)

lemma loop_head_0 [simp]:
  "responses (loop_head self q w 0) = []" "merged_response (loop_head self q w 0) = None"
  "trace (loop_head self q w 0) = []" "world (loop_head self q w 0) = w"
  by (simp_all add: initial_def)

lemma run_eq_while_loop: "run self q w = while_loop self q (loop_head self q w 0)"
  by (simp add: run_def)

lemma iteration_round_end [simp]: "iteration (round_end self q w n) = int n"
  by (simp add: round_end_def)

lemma loop_head_Suc: 
  "loop_head self q w (Suc n) = (round_end self q w n)\<lparr>iteration := int n + 1\<rparr>"
  by (simp add: round_end_def Let_def)

declare loop_head.simps [simp del]

lemma iterations_round_end_step:
  "iterations (trace (round_end self q w n)) =
   iterations (trace (loop_head self q w n)) @ [int n]"
  by (simp add: round_end_def)

lemma iterations_loop_head [simp]:
  "iterations (trace (loop_head self q w n)) = map int [0..<n]"
  by (induction n) (simp_all add: loop_head_Suc iterations_round_end_step)

lemma iterations_round_end [simp]:
  "iterations (trace (round_end self q w n)) = map int [0..<Suc n]"
  by (simp add: round_end_def)

lemma while_loop_continue:
  assumes "iteration st < max_iterations self"
    and "\<not> check_consensus (responses (round_body self q st))"
  shows "while_loop self q st =
         while_loop self q ((round_body self q st)\<lparr>iteration := iteration st + 1\<rparr>)"
  using assms by (subst while_loop.simps) (simp add: Let_def)

lemma while_loop_consensus:
  assumes "iteration st < max_iterations self"
    and "check_consensus (responses (round_body self q st))"
  shows "while_loop self q st =
         (final_answer (round_body self q st),
          (round_body self q st)\<lparr>trace := trace (round_body self q st) @ [Consensus_reached]\<rparr>)"
  using assms by (subst while_loop.simps) (simp add: Let_def)

lemma while_loop_exhausted:
  assumes "\<not> iteration st < max_iterations self"
  shows "while_loop self q st =
         (final_answer st, st\<lparr>trace := trace st @ [Max_iterations_reached]\<rparr>)"
  using assms by (subst while_loop.simps) simp

lemma run_reaches_loop_head:
  "int n \<le> max_iterations self \<Longrightarrow>
   \<forall>m<n. \<not> check_consensus (responses (round_end self q w m)) \<Longrightarrow>
   run self q w = while_loop self q (loop_head self q w n)"
proof (induction n)
  case 0
  then show ?case by (simp add: run_eq_while_loop)
next
  case (Suc n)
  then have "run self q w = while_loop self q (loop_head self q w n)"
    by simp
  also have "\<dots> = while_loop self q (loop_head self q w (Suc n))"
    using Suc.prems while_loop_continue[of "loop_head self q w n" self q]
    by (simp add: round_end_def loop_head_Suc)
  finally show ?case .
qed

lemma run_consensus:
  assumes "int n < max_iterations self"
    and "check_consensus (responses (round_end self q w n))"
    and "\<forall>m<n. \<not> check_consensus (responses (round_end self q w m))"
  shows "run self q w =
         (final_answer (round_end self q w n),
          (round_end self q w n)\<lparr>trace := trace (round_end self q w n) @ [Consensus_reached]\<rparr>)"
proof -
  have "run self q w = while_loop self q (loop_head self q w n)"
    using assms by (simp add: run_reaches_loop_head)
  then show ?thesis
    using assms while_loop_consensus[of "loop_head self q w n" self q]
    by (simp add: round_end_def)
qed

lemma run_exhausted:
  assumes "\<forall>m. int m < max_iterations self \<longrightarrow>
             \<not> check_consensus (responses (round_end self q w m))"
  shows "run self q w =
         (final_answer (loop_head self q w (nat (max_iterations self))),
          (loop_head self q w (nat (max_iterations self)))
            \<lparr>trace := trace (loop_head self q w (nat (max_iterations self))) @
                       [Max_iterations_reached]\<rparr>)"
proof (cases "0 \<le> max_iterations self")
  case True
  have "run self q w = while_loop self q (loop_head self q w (nat (max_iterations self)))"
    using assms True by (intro run_reaches_loop_head) auto
  then show ?thesis
    using True while_loop_exhausted[of "loop_head self q w (nat (max_iterations self))" self q]
    by simp
next
  case False
  then show ?thesis
    using while_loop_exhausted[of "loop_head self q w 0" self q]
    by (simp add: run_eq_while_loop)
qed

lemma first_consensus:
  assumes "int m < max_iterations self" "check_consensus (responses (round_end self q w m))"
  shows "\<exists>n. int n < max_iterations self \<and> check_consensus (responses (round_end self q w n)) \<and>
             (\<forall>k<n. \<not> check_consensus (responses (round_end self q w k)))"
  using assms
proof (induction m rule: less_induct)
  case (less m)
  show ?case
  proof (cases "\<exists>k<m. check_consensus (responses (round_end self q w k))")
    case True
    then obtain k where k: "k < m" "check_consensus (responses (round_end self q w k))"
      by blast
    with less.prems have kmax: "int k < max_iterations self" by linarith
    show ?thesis by (rule less.IH[OF k(1) kmax k(2)])
  next
    case False
    with less.prems show ?thesis by blast
  qed
qed

lemma run_cases:
  "(\<exists>n. int n < max_iterations self \<and>
        check_consensus (responses (round_end self q w n)) \<and>
        (\<forall>m<n. \<not> check_consensus (responses (round_end self q w m))) \<and>
        run self q w =
          (final_answer (round_end self q w n),
           (round_end self q w n)\<lparr>trace := trace (round_end self q w n) @ [Consensus_reached]\<rparr>)) \<or>
   ((\<forall>m. int m < max_iterations self \<longrightarrow>
          \<not> check_consensus (responses (round_end self q w m))) \<and>
    run self q w =
      (final_answer (loop_head self q w (nat (max_iterations self))),
       (loop_head self q w (nat (max_iterations self)))
         \<lparr>trace := trace (loop_head self q w (nat (max_iterations self))) @
                    [Max_iterations_reached]\<rparr>))"
proof (cases "\<exists>m. int m < max_iterations self \<and> check_consensus (responses (round_end self q w m))")
  case True
  then obtain m where "int m < max_iterations self"
      "check_consensus (responses (round_end self q w m))" by blast
  from first_consensus[OF this] obtain n where n: "int n < max_iterations self"
      "check_consensus (responses (round_end self q w n))"
      "\<forall>k<n. \<not> check_consensus (responses (round_end self q w k))" by blast
  from run_consensus[OF n] n show ?thesis by blast
next
  case False
  then have no: "\<forall>m. int m < max_iterations self \<longrightarrow>
             \<not> check_consensus (responses (round_end self q w m))" by blast
  from run_exhausted[OF no] no show ?thesis by blast
qed

section \<open>Invariants of the rounds\<close>

lemma responses_loop_head_Suc [simp]:
  "responses (loop_head self q w (Suc n)) = responses (round_end self q w n)"
  by (simp add: loop_head_Suc)

lemma world_loop_head_Suc [simp]:
  "world (loop_head self q w (Suc n)) = world (round_end self q w n)"
  by (simp add: loop_head_Suc)

lemma merged_loop_head_Suc [simp]:
  "merged_response (loop_head self q w (Suc n)) = merged_response (round_end self q w n)"
  by (simp add: loop_head_Suc)

lemma trace_loop_head_Suc [simp]:
  "trace (loop_head self q w (Suc n)) = trace (round_end self q w n)"
  by (simp add: loop_head_Suc)

lemma responses_round_body:
  "responses (round_body self q st) = responses (for_models self q (models self) (st\<lparr>trace := trace st @ [Iteration (iteration st)]\<rparr>))"
  by (simp add: round_body_def)

lemma keys_round_end:
  assumes "distinct (dict_keys (models self))"
  shows "dict_keys (responses (round_end self q w n)) = dict_keys (models self)"
proof (induction n)
  case 0
  show ?case
    using assms by (simp add: round_end_def round_body_def keys_for_models_fresh)
next
  case (Suc n)
  then show ?case
    by (simp add: round_end_def[of self q w "Suc n"] round_body_def keys_for_models_same)
qed

lemma dict_set_not_Nil [simp]: "dict_set d k v \<noteq> []"
  by (cases d) (auto split: if_splits)

lemma responses_for_models_not_Nil:
  "ms \<noteq> [] \<or> responses st \<noteq> [] \<Longrightarrow> responses (for_models self q ms st) \<noteq> []"
  by (induction ms arbitrary: st) simp_all

lemma responses_round_end_not_Nil:
  "models self \<noteq> [] \<Longrightarrow> responses (round_end self q w n) \<noteq> []"
  by (simp add: round_end_def round_body_def responses_for_models_not_Nil)

lemma round_end_no_models:
  "models self = [] \<Longrightarrow> responses (round_end self q w 0) = []"
  by (simp add: round_end_def round_body_def)

lemma is_first_key_Cons:
  "models self = m # rest \<Longrightarrow> is_first_key self k \<longleftrightarrow> k = fst m"
  by (simp add: is_first_key_def)

lemma merged_round_body:
  assumes "models self = m # rest" "distinct (dict_keys (models self))"
  shows "merged_response (round_body self q st) =
           (if iteration st = 1 then Some (response (reply_in q (snd m) st))
            else merged_response st)"
    and "stored (trace (round_body self q st)) =
           stored (trace st) @ (if iteration st = 1 then [response (reply_in q (snd m) st)] else [])"
proof -
  have fresh: "fst m \<notin> set (dict_keys rest)"
    using assms by simp
  have nf: "\<forall>x \<in> set rest. \<not> is_first_key self (fst x)"
  proof
    fix x assume "x \<in> set rest"
    then have "fst x \<in> set (dict_keys rest)" by (simp add: dict_keys_def)
    with fresh have "fst x \<noteq> fst m" by auto
    then show "\<not> is_first_key self (fst x)" by (simp add: is_first_key_Cons[OF assms(1)])
  qed
  show "merged_response (round_body self q st) =
           (if iteration st = 1 then Some (response (reply_in q (snd m) st))
            else merged_response st)"
    using assms(1) by (simp add: round_body_def merged_for_models_not_first[OF nf] is_first_key_Cons)
  show "stored (trace (round_body self q st)) =
           stored (trace st) @ (if iteration st = 1 then [response (reply_in q (snd m) st)] else [])"
    using assms(1) by (simp add: round_body_def stored_for_models_not_first[OF nf] is_first_key_Cons)
qed

lemma merged_round_body_no_models:
  assumes "models self = []"
  shows "merged_response (round_body self q st) = merged_response st"
    and "stored (trace (round_body self q st)) = stored (trace st)"
  using assms by (simp_all add: round_body_def)

lemma merged_round_end:
  assumes "distinct (dict_keys (models self))"
  shows "merged_response (round_end self q w n) =
           (if 1 \<le> n then candidate_answer self q w else None) \<and>
         stored (trace (round_end self q w n)) =
           (if 1 \<le> n then option_list (candidate_answer self q w) else [])"
proof (cases "models self")
  case Nil
  have "merged_response (round_end self q w n) = None \<and> stored (trace (round_end self q w n)) = []"
    by (induction n) (simp_all add: round_end_def merged_round_body_no_models[OF Nil])
  then show ?thesis
    using Nil by (simp add: candidate_answer_def option_list_def)
next
  case (Cons m rest)
  note mr = merged_round_body[OF Cons assms]
  have step_m: "merged_response (round_end self q w k) =
      (if k = 1 then Some (response (reply_in q (snd m) (loop_head self q w k)))
       else merged_response (loop_head self q w k))" for k
    by (simp add: round_end_def mr)
  have step_s: "stored (trace (round_end self q w k)) =
      stored (trace (loop_head self q w k)) @
      (if k = 1 then [response (reply_in q (snd m) (loop_head self q w k))] else [])" for k
    by (simp add: round_end_def mr)
  have cand: "candidate_answer self q w =
      Some (response (reply_in q (snd m) (loop_head self q w 1)))"
    using Cons by (simp add: candidate_answer_def)
  show ?thesis
  proof (induction n)
    case 0
    show ?case by (simp add: step_m step_s)
  next
    case (Suc n)
    show ?case
    proof (cases "n = 0")
      case True
      with Suc.IH show ?thesis
        by (simp add: step_m[of "Suc 0"] step_s[of "Suc 0"] cand option_list_def)
    next
      case False
      with Suc.IH show ?thesis
        by (simp add: step_m[of "Suc n"] step_s[of "Suc n"])
    qed
  qed
qed

lemma merged_loop_head:
  assumes "distinct (dict_keys (models self))"
  shows "merged_response (loop_head self q w n) =
           (if 2 \<le> n then candidate_answer self q w else None)"
    and "stored (trace (loop_head self q w n)) =
           (if 2 \<le> n then option_list (candidate_answer self q w) else [])"
  using merged_round_end[OF assms, of q w "n - 1"]
  by (cases n; simp)+

lemma head_round_end:
  assumes "models self = m # rest" "distinct (dict_keys (models self))"
  shows "\<exists>d. responses (round_end self q w n) =
              (fst m, reply_in q (snd m) (loop_head self q w n)) # d"
proof -
  have k0: "fst m \<notin> set (dict_keys rest)"
    using assms by (simp add: dict_keys_def)
  let ?st = "(loop_head self q w n)\<lparr>trace := trace (loop_head self q w n) @ [Iteration (int n)]\<rparr>"
  have "\<exists>d. responses (ask_model self q m ?st) = (fst m, reply_in q (snd m) (loop_head self q w n)) # d"
  proof (cases n)
    case 0
    then show ?thesis by simp
  next
    case (Suc k)
    have "dict_keys (responses (loop_head self q w n)) = fst m # dict_keys rest"
      using keys_round_end[OF assms(2), of q w k] assms(1) Suc by (simp)
    then obtain x d where "responses (loop_head self q w n) = x # d" "fst x = fst m"
      by (cases "responses (loop_head self q w n)") auto
    then show ?thesis by (cases x) (simp)
  qed
  then obtain d where "responses (ask_model self q m ?st) = (fst m, reply_in q (snd m) (loop_head self q w n)) # d"
    by blast
  from head_for_models[OF this k0, of self q]
  show ?thesis
    using assms(1) by (simp add: round_end_def round_body_def)
qed

lemma final_answer_head:
  "responses st = (k, r) # d \<Longrightarrow>
   final_answer st = Inr (case merged_response st of
                            None \<Rightarrow> response r
                          | Some t \<Rightarrow> if t \<noteq> [] then t else response r)"
  by (simp add: final_answer_def first_response_def split: option.splits)

lemma final_answer_no_responses:
  "responses st = [] \<Longrightarrow> merged_response st = None \<Longrightarrow> final_answer st = Inl IndexError"
  by (simp add: final_answer_def first_response_def)

lemma final_answer_trace [simp]: "final_answer (st\<lparr>trace := t\<rparr>) = final_answer st"
  by (simp add: final_answer_def split: option.splits)

lemma prompts_round_0:
  "iteration st = 0 \<Longrightarrow>
   map (fst \<circ> snd) (asked (trace (for_models self q ms st))) =
   map (fst \<circ> snd) (asked (trace st)) @ replicate (length ms) q"
  by (induction ms arbitrary: st) (simp_all add: select_prompt_def replicate_app_Cons_same)

section \<open>Runs that end in round 0 or after one round\<close>

lemma reply_in_loop_head_0: "reply_in q f (loop_head self q w 0) = fst (f q w)"
  by (simp add: reply_in_def select_prompt_def)

lemma consensus_round_0_all_agree:
  assumes "\<forall>x \<in> set (models self). \<forall>p w'. agrees (fst (snd x p w'))"
  shows "check_consensus (responses (round_end self q w 0))"
proof -
  have "\<forall>r \<in> set (dict_values (responses (round_end self q w 0))). agrees r"
    unfolding round_end_def round_body_def
    by (rule all_agree_for_models[OF assms]) simp
  then show ?thesis by (simp add: check_consensus_def list_all_iff)
qed

text \<open>
  C1, amended: for every question and every registered agent set with at least one agent
  in which every agent always returns \<open>agrees = true\<close>, and with \<open>max_iterations\<close> at
  least 1, \<open>get_consensus\<close> returns in round 0 (iteration index 0): the consensus check
  after round 0 succeeds, no further round runs, and the result is the first-registered
  agent's response text of round 0.
\<close>

theorem all_agree_returns_at_round_0:
  assumes "models self = m # rest"
    and "distinct (dict_keys (models self))"
    and "1 \<le> max_iterations self"
    and "\<forall>x \<in> set (models self). \<forall>p w'. agrees (fst (snd x p w'))"
  shows "get_consensus self question w = Inr (response (fst (snd m question w))) \<and>
         iterations (trace (snd (run self question w))) = [0] \<and>
         last (trace (snd (run self question w))) = Consensus_reached"
proof -
  have c: "check_consensus (responses (round_end self question w 0))"
    by (rule consensus_round_0_all_agree[OF assms(4)])
  have r: "run self question w =
      (final_answer (round_end self question w 0),
       (round_end self question w 0)
         \<lparr>trace := trace (round_end self question w 0) @ [Consensus_reached]\<rparr>)"
    using run_consensus[of 0 self question w] assms(3) c by simp
  obtain d where d: "responses (round_end self question w 0) =
      (fst m, reply_in question (snd m) (loop_head self question w 0)) # d"
    using head_round_end[OF assms(1,2)] by blast
  have mr: "merged_response (round_end self question w 0) = None"
    using merged_round_end[OF assms(2), of question w 0] by simp
  have "final_answer (round_end self question w 0) = Inr (response (fst (snd m question w)))"
    using final_answer_head[OF d] mr by (simp add: reply_in_loop_head_0)
  with r show ?thesis
    by (simp add: get_consensus_def)
qed

text \<open>
  C8: when \<open>max_iterations = 1\<close> and consensus is not reached in round 0,
  \<open>get_consensus\<close> runs exactly one round (iteration index 0), every prompt it sends is
  the question itself (no merge prompt is built), \<open>merged_response\<close> is never set, and
  the result is the first-registered agent's response text of round 0.
\<close>

theorem one_round_without_consensus:
  assumes "max_iterations self = 1"
    and "distinct (dict_keys (models self))"
    and "\<not> check_consensus (responses (round_end self question w 0))"
  shows "\<exists>m rest. models self = m # rest \<and>
           get_consensus self question w = Inr (response (fst (snd m question w))) \<and>
           iterations (trace (snd (run self question w))) = [0] \<and>
           map (fst \<circ> snd) (asked (trace (snd (run self question w)))) =
             replicate (length (models self)) question \<and>
           merged_response (snd (run self question w)) = None \<and>
           last (trace (snd (run self question w))) = Max_iterations_reached"
proof -
  have ne: "models self \<noteq> []"
  proof
    assume "models self = []"
    then have "responses (round_end self question w 0) = []"
      by (rule round_end_no_models)
    with assms(3) show False by (simp add: check_consensus_def)
  qed
  then obtain m rest where m: "models self = m # rest"
    by (cases "models self") auto
  have no: "\<forall>k. int k < max_iterations self \<longrightarrow>
             \<not> check_consensus (responses (round_end self question w k))"
    using assms(1,3) by simp
  have r: "run self question w =
      (final_answer (loop_head self question w (Suc 0)),
       (loop_head self question w (Suc 0))
         \<lparr>trace := trace (loop_head self question w (Suc 0)) @ [Max_iterations_reached]\<rparr>)"
    using run_exhausted[OF no] assms(1) by simp
  obtain d where d: "responses (loop_head self question w (Suc 0)) =
      (fst m, reply_in question (snd m) (loop_head self question w 0)) # d"
    using head_round_end[OF m assms(2), of question w 0] by auto
  have mr: "merged_response (loop_head self question w (Suc 0)) = None"
    using merged_loop_head(1)[OF assms(2), of question w "Suc 0"] by simp
  have fa: "final_answer (loop_head self question w (Suc 0)) =
      Inr (response (fst (snd m question w)))"
    using final_answer_head[OF d] mr by (simp add: reply_in_loop_head_0)
  have pr: "map (fst \<circ> snd) (asked (trace (loop_head self question w (Suc 0)))) =
      replicate (length (models self)) question"
    by (simp add: round_end_def round_body_def prompts_round_0)
  from r fa mr pr m show ?thesis
    by (simp add: get_consensus_def)
qed

lemma no_consensus_round_end:
  assumes "distinct (dict_keys (models self))" "(k, f) \<in> set (models self)"
    "\<forall>p w'. \<not> agrees (fst (f p w'))"
  shows "\<not> check_consensus (responses (round_end self q w n))"
  unfolding round_end_def round_body_def
  by (rule no_consensus_for_models[OF assms])

text \<open>
  C5, amended: for every question and every agent set in which at least one agent always
  returns \<open>agrees = false\<close>, with \<open>max_iterations = 5\<close>, \<open>get_consensus\<close> runs
  exactly five rounds (iteration indices 0 to 4) and leaves by the exhaustion exit; the
  candidate answer captured in round 1 is set (not \<open>None\<close>) at the end, and it is what
  \<open>get_consensus\<close> returns whenever it is not the empty string.
\<close>

theorem no_consensus_runs_all_rounds:
  assumes "max_iterations self = 5"
    and "distinct (dict_keys (models self))"
    and "(k, f) \<in> set (models self)"
    and "\<forall>p w'. \<not> agrees (fst (f p w'))"
  shows "iterations (trace (snd (run self question w))) = [0, 1, 2, 3, 4] \<and>
         last (trace (snd (run self question w))) = Max_iterations_reached \<and>
         (\<exists>t. candidate_answer self question w = Some t \<and>
              merged_response (snd (run self question w)) = Some t \<and>
              (t \<noteq> [] \<longrightarrow> get_consensus self question w = Inr t))"
proof -
  have no: "\<forall>n. int n < max_iterations self \<longrightarrow>
             \<not> check_consensus (responses (round_end self question w n))"
    using no_consensus_round_end[OF assms(2,3,4)] by blast
  have five: "nat (max_iterations self) = 5"
    using assms(1) by simp
  have r: "run self question w =
      (final_answer (loop_head self question w 5),
       (loop_head self question w 5)
         \<lparr>trace := trace (loop_head self question w 5) @ [Max_iterations_reached]\<rparr>)"
    using run_exhausted[OF no] by (simp only: five)
  obtain m rest where m: "models self = m # rest"
    using assms(3) by (cases "models self") auto
  then obtain t where t: "candidate_answer self question w = Some t"
    by (simp add: candidate_answer_def)
  have mr: "merged_response (loop_head self question w 5) = Some t"
    using merged_loop_head(1)[OF assms(2), of question w 5] t by simp
  have h5: "responses (loop_head self question w 5) = responses (round_end self question w 4)"
    using responses_loop_head_Suc[of self question w 4] by simp
  obtain d where d: "responses (loop_head self question w 5) =
      (fst m, reply_in question (snd m) (loop_head self question w 4)) # d"
    using head_round_end[OF m assms(2), of question w 4] h5 by auto
  have fa: "t \<noteq> [] \<longrightarrow> final_answer (loop_head self question w 5) = Inr t"
    using final_answer_head[OF d] mr by simp
  have "[0..<5] = [0, 1, 2, 3, 4::nat]"
    by (simp add: upt_rec)
  then have it: "iterations (trace (loop_head self question w 5)) = [0, 1, 2, 3, 4]"
    by simp
  from r t mr fa it show ?thesis
    by (simp add: get_consensus_def)
qed

section \<open>The candidate answer and the calls of a run\<close>

lemma length_option_list: "length (option_list x) \<le> 1"
  by (cases x) (simp_all add: option_list_def)

lemma models_not_Nil_if_no_consensus:
  assumes "\<not> check_consensus (responses (round_end self q w 0))"
  shows "models self \<noteq> []"
proof
  assume "models self = []"
  then have "responses (round_end self q w 0) = []" by (rule round_end_no_models)
  with assms show False by (simp add: check_consensus_def)
qed

lemma final_state_summary:
  assumes "distinct (dict_keys (models self))"
  shows "merged_response (snd (run self q w)) =
           (if 2 \<le> length (iterations (trace (snd (run self q w))))
            then candidate_answer self q w else None) \<and>
         stored (trace (snd (run self q w))) =
           (if 2 \<le> length (iterations (trace (snd (run self q w))))
            then option_list (candidate_answer self q w) else []) \<and>
         (2 \<le> length (iterations (trace (snd (run self q w)))) \<longrightarrow> models self \<noteq> [])"
proof -
  from run_cases[of self q w] show ?thesis
  proof (elim disjE exE conjE)
    fix n
    assume n: "int n < max_iterations self"
      and no: "\<forall>m<n. \<not> check_consensus (responses (round_end self q w m))"
      and r: "run self q w =
        (final_answer (round_end self q w n),
         (round_end self q w n)\<lparr>trace := trace (round_end self q w n) @ [Consensus_reached]\<rparr>)"
    have ne: "1 \<le> n \<longrightarrow> models self \<noteq> []"
      using no models_not_Nil_if_no_consensus[of self q w] by auto
    show ?thesis
      using merged_round_end[OF assms, of q w n] ne by (simp add: r)
  next
    assume no: "\<forall>m. int m < max_iterations self \<longrightarrow>
                  \<not> check_consensus (responses (round_end self q w m))"
      and r: "run self q w =
        (final_answer (loop_head self q w (nat (max_iterations self))),
         (loop_head self q w (nat (max_iterations self)))
           \<lparr>trace := trace (loop_head self q w (nat (max_iterations self))) @
                      [Max_iterations_reached]\<rparr>)"
    have ne: "2 \<le> nat (max_iterations self) \<longrightarrow> models self \<noteq> []"
    proof
      assume "2 \<le> nat (max_iterations self)"
      then have "int 0 < max_iterations self" by simp
      with no have "\<not> check_consensus (responses (round_end self q w 0))" by blast
      then show "models self \<noteq> []" by (rule models_not_Nil_if_no_consensus)
    qed
    show ?thesis
      using merged_loop_head[OF assms, of q w "nat (max_iterations self)"] ne
      by (simp add: r)
  qed
qed

text \<open>
  C3: in every run, \<open>merged_response\<close> is assigned at most once; at the end of the run it
  is set if and only if at least two rounds were started (iteration indices 0 and 1), and
  then the one value ever assigned is the response text of the first-registered agent in
  round 1, which is still the value of \<open>merged_response\<close> when the run ends.
\<close>

theorem merged_response_assigned_once:
  assumes "distinct (dict_keys (models self))"
  shows "length (stored (trace (snd (run self question w)))) \<le> 1 \<and>
         (merged_response (snd (run self question w)) \<noteq> None \<longleftrightarrow>
            2 \<le> length (iterations (trace (snd (run self question w))))) \<and>
         (2 \<le> length (iterations (trace (snd (run self question w)))) \<longrightarrow>
            merged_response (snd (run self question w)) = candidate_answer self question w \<and>
            stored (trace (snd (run self question w))) =
              option_list (candidate_answer self question w)) \<and>
         (length (iterations (trace (snd (run self question w)))) < 2 \<longrightarrow>
            stored (trace (snd (run self question w))) = [])"
proof -
  note s = final_state_summary[OF assms, of question w]
  have c: "models self \<noteq> [] \<longrightarrow> candidate_answer self question w \<noteq> None"
    by (cases "models self") (simp_all add: candidate_answer_def)
  show ?thesis
  proof (cases "2 \<le> length (iterations (trace (snd (run self question w))))")
    case True
    with s c show ?thesis
      using length_option_list[of "candidate_answer self question w"] by simp
  next
    case False
    with s show ?thesis by simp
  qed
qed

lemma asked_names_round_end:
  "map fst (asked (trace (round_end self q w n))) =
   map fst (asked (trace (loop_head self q w n))) @ dict_keys (models self)"
  by (simp add: round_end_def round_body_def asked_names_for_models)

lemma concat_replicate_Suc: "concat (replicate n xs) @ xs = concat (replicate (Suc n) xs)"
  by (induction n) simp_all

lemma asked_names_loop_head:
  "map fst (asked (trace (loop_head self q w n))) = concat (replicate n (dict_keys (models self)))"
proof (induction n)
  case 0
  show ?case by simp
next
  case (Suc n)
  have "map fst (asked (trace (loop_head self q w (Suc n)))) =
        map fst (asked (trace (loop_head self q w n))) @ dict_keys (models self)"
    by (simp add: asked_names_round_end)
  also have "\<dots> = concat (replicate n (dict_keys (models self))) @ dict_keys (models self)"
    by (simp only: Suc.IH)
  also have "\<dots> = concat (replicate (Suc n) (dict_keys (models self)))"
    by (rule concat_replicate_Suc)
  finally show ?case .
qed

lemma run_asked_names:
  "map fst (asked (trace (snd (run self q w)))) =
   concat (replicate (length (iterations (trace (snd (run self q w)))))
             (dict_keys (models self)))"
proof -
  from run_cases[of self q w] show ?thesis
  proof (elim disjE exE conjE)
    fix n
    assume r: "run self q w =
        (final_answer (round_end self q w n),
         (round_end self q w n)\<lparr>trace := trace (round_end self q w n) @ [Consensus_reached]\<rparr>)"
    have "map fst (asked (trace (round_end self q w n))) =
          concat (replicate (Suc n) (dict_keys (models self)))"
      using asked_names_loop_head[of self q w "Suc n"] by simp
    then show ?thesis by (simp add: r)
  next
    assume r: "run self q w =
        (final_answer (loop_head self q w (nat (max_iterations self))),
         (loop_head self q w (nat (max_iterations self)))
           \<lparr>trace := trace (loop_head self q w (nat (max_iterations self))) @
                      [Max_iterations_reached]\<rparr>)"
    show ?thesis by (simp add: r asked_names_loop_head)
  qed
qed

lemma initial_fields [simp]:
  "iteration (initial w) = 0" "responses (initial w) = []" "merged_response (initial w) = None"
  "world (initial w) = w" "trace (initial w) = []"
  by (simp_all add: initial_def)

lemma run_no_models:
  assumes "models self = []" "1 \<le> max_iterations self"
  shows "run self q w = (Inl IndexError, (initial w)\<lparr>trace := [Iteration 0, Consensus_reached]\<rparr>)"
proof -
  have rb: "round_body self q (initial w) = (initial w)\<lparr>trace := [Iteration 0]\<rparr>"
    using assms(1) by (simp add: round_body_def)
  have "while_loop self q (initial w) =
      (final_answer (round_body self q (initial w)),
       (round_body self q (initial w))
         \<lparr>trace := trace (round_body self q (initial w)) @ [Consensus_reached]\<rparr>)"
    using assms(2) by (intro while_loop_consensus) (simp_all add: rb check_consensus_def)
  then show ?thesis
    by (simp add: run_def rb final_answer_def first_response_def)
qed

lemma run_no_iterations:
  assumes "max_iterations self \<le> 0"
  shows "run self q w = (Inl IndexError, (initial w)\<lparr>trace := [Max_iterations_reached]\<rparr>)"
proof -
  have "while_loop self q (initial w) =
      (final_answer (initial w), (initial w)\<lparr>trace := trace (initial w) @ [Max_iterations_reached]\<rparr>)"
    using assms by (intro while_loop_exhausted) simp
  then show ?thesis
    by (simp add: run_def final_answer_def first_response_def)
qed

lemma final_answer_Inr:
  "responses st \<noteq> [] \<Longrightarrow> \<exists>s. final_answer st = Inr s \<and> (\<exists>t. first_response (responses st) = Inr t)"
  by (cases "responses st")
     (auto simp: final_answer_def first_response_def split: option.splits)

lemma run_returns_string:
  assumes "models self \<noteq> []" "1 \<le> max_iterations self"
  shows "(\<exists>s. get_consensus self q w = Inr s) \<and>
         (\<exists>t. first_response (responses (snd (run self q w))) = Inr t)"
proof -
  from run_cases[of self q w] show ?thesis
  proof (elim disjE exE conjE)
    fix n
    assume r: "run self q w =
        (final_answer (round_end self q w n),
         (round_end self q w n)\<lparr>trace := trace (round_end self q w n) @ [Consensus_reached]\<rparr>)"
    show ?thesis
      using final_answer_Inr[OF responses_round_end_not_Nil[OF assms(1), of q w n]]
      by (simp add: r get_consensus_def)
  next
    assume r: "run self q w =
        (final_answer (loop_head self q w (nat (max_iterations self))),
         (loop_head self q w (nat (max_iterations self)))
           \<lparr>trace := trace (loop_head self q w (nat (max_iterations self))) @
                      [Max_iterations_reached]\<rparr>)"
    obtain k where k: "nat (max_iterations self) = Suc k"
      using assms(2) by (cases "nat (max_iterations self)") auto
    have "responses (loop_head self q w (nat (max_iterations self))) \<noteq> []"
      using responses_round_end_not_Nil[OF assms(1), of q w k] by (simp add: k)
    from final_answer_Inr[OF this] show ?thesis
      by (simp add: r get_consensus_def)
  qed
qed

section \<open>The prompts within a round\<close>

lemma asked_for_models_prefix:
  "\<exists>evs. asked (trace (for_models self q ms st)) = asked (trace st) @ evs"
proof (induction ms arbitrary: st)
  case Nil
  show ?case by simp
next
  case (Cons m ms)
  from Cons[of "ask_model self q m st"] show ?case by auto
qed

lemma asked_for_models_nth:
  "k < length ms \<Longrightarrow>
   asked (trace (for_models self q ms st)) ! (length (asked (trace st)) + k) =
     (fst (ms ! k),
      select_prompt q (iteration st) (responses (for_models self q (take k ms) st)),
      reply_in q (snd (ms ! k)) (for_models self q (take k ms) st))"
proof (induction ms arbitrary: st k)
  case Nil
  then show ?case by simp
next
  case (Cons m ms)
  show ?case
  proof (cases k)
    case 0
    obtain evs where "asked (trace (for_models self q ms (ask_model self q m st))) =
        asked (trace (ask_model self q m st)) @ evs"
      using asked_for_models_prefix by blast
    then show ?thesis using 0 by (simp add: nth_append)
  next
    case (Suc j)
    with Cons.prems have "j < length ms" by simp
    from Cons.IH[OF this, of "ask_model self q m st"] show ?thesis
      using Suc by simp
  qed
qed

lemma take_for_models:
  "set (dict_keys ms) \<subseteq> set (dict_keys (responses st)) \<Longrightarrow>
   set (dict_keys ms) \<inter> set (take k (dict_keys (responses st))) = {} \<Longrightarrow>
   take k (responses (for_models self q ms st)) = take k (responses st)"
proof (induction ms arbitrary: st)
  case Nil
  show ?case by simp
next
  case (Cons m ms)
  have mem: "fst m \<in> set (dict_keys (responses st))"
    and notin: "fst m \<notin> set (take k (dict_keys (responses st)))"
    using Cons.prems by auto
  have keys: "dict_keys (responses (ask_model self q m st)) = dict_keys (responses st)"
    using mem by (simp add: dict_keys_dict_set_mem)
  have "take k (responses (for_models self q ms (ask_model self q m st))) =
        take k (responses (ask_model self q m st))"
    using Cons.prems by (intro Cons.IH) (auto simp: dict_keys_dict_set_mem[OF mem])
  also have "\<dots> = take k (responses st)"
    using mem notin by (simp add: take_dict_set)
  finally show ?case by simp
qed

lemma drop_for_models:
  "set (dict_keys ms) \<subseteq> set (take k (dict_keys (responses st))) \<Longrightarrow>
   drop k (responses (for_models self q ms st)) = drop k (responses st)"
proof (induction ms arbitrary: st)
  case Nil
  show ?case by simp
next
  case (Cons m ms)
  have intake: "fst m \<in> set (take k (dict_keys (responses st)))"
    using Cons.prems by auto
  then have mem: "fst m \<in> set (dict_keys (responses st))"
    by (rule in_set_takeD)
  have keys: "dict_keys (responses (ask_model self q m st)) = dict_keys (responses st)"
    using mem by (simp add: dict_keys_dict_set_mem)
  have "drop k (responses (for_models self q ms (ask_model self q m st))) =
        drop k (responses (ask_model self q m st))"
    using Cons.prems by (intro Cons.IH) (auto simp: dict_keys_dict_set_mem[OF mem])
  also have "\<dots> = drop k (responses st)"
    using intake by (simp add: drop_dict_set)
  finally show ?case by simp
qed

lemma dict_keys_take: "dict_keys (take k d) = take k (dict_keys d)"
  by (simp add: dict_keys_def take_map)

lemma dict_keys_drop: "dict_keys (drop k d) = drop k (dict_keys d)"
  by (simp add: dict_keys_def drop_map)

lemma responses_after_prefix:
  assumes "distinct (dict_keys ms)" "dict_keys (responses st) = dict_keys ms"
  shows "responses (for_models self q (take k ms) st) =
         take k (responses (for_models self q ms st)) @ drop k (responses st)"
proof -
  let ?mid = "for_models self q (take k ms) st"
  have keys_mid: "dict_keys (responses ?mid) = dict_keys ms"
    using assms(2) by (simp add: keys_for_models_same dict_keys_take set_take_subset)
  have full: "for_models self q ms st = for_models self q (drop k ms) ?mid"
    using for_models_append[of self q "take k ms" "drop k ms" st] by simp
  have "distinct (take k (dict_keys ms) @ drop k (dict_keys ms))"
    using assms(1) by simp
  then have disj: "set (drop k (dict_keys ms)) \<inter> set (take k (dict_keys ms)) = {}"
    by (auto simp only: distinct_append)
  have t: "take k (responses (for_models self q (drop k ms) ?mid)) = take k (responses ?mid)"
    by (rule take_for_models) (simp_all add: keys_mid dict_keys_drop set_drop_subset disj)
  have d: "drop k (responses ?mid) = drop k (responses st)"
    by (rule drop_for_models) (simp add: assms(2) dict_keys_take)
  have "responses ?mid = take k (responses ?mid) @ drop k (responses ?mid)"
    by simp
  also have "\<dots> = take k (responses (for_models self q ms st)) @ drop k (responses st)"
    using t d full by simp
  finally show ?thesis .
qed

text \<open>
  C2, amended: in every round with iteration index at least 1, the prompt given to the
  \<open>k\<close>-th registered agent is built from the dictionary that holds this round's
  responses of the agents registered before it and the previous round's responses of
  itself and the agents registered after it; only the first-registered agent's prompt is
  built from the previous round's responses alone.
\<close>

theorem prompt_lists_replies_so_far:
  assumes "distinct (dict_keys (models self))"
    and "k < length (models self)"
  shows "fst (asked (trace (round_end self question w (Suc n))) !
              (length (asked (trace (round_end self question w n))) + k)) =
           fst (models self ! k) \<and>
         fst (snd (asked (trace (round_end self question w (Suc n))) !
                   (length (asked (trace (round_end self question w n))) + k))) =
           select_prompt question (int (Suc n))
             (take k (responses (round_end self question w (Suc n))) @
              drop k (responses (round_end self question w n)))"
proof -
  let ?st = "(loop_head self question w (Suc n))
      \<lparr>trace := trace (loop_head self question w (Suc n)) @ [Iteration (int (Suc n))]\<rparr>"
  have re: "round_end self question w (Suc n) = for_models self question (models self) ?st"
    by (simp add: round_end_def[of self question w "Suc n"] round_body_def)
  have a: "asked (trace ?st) = asked (trace (round_end self question w n))"
    by simp
  have keys: "dict_keys (responses ?st) = dict_keys (models self)"
    using keys_round_end[OF assms(1), of question w n] by simp
  have nth: "asked (trace (for_models self question (models self) ?st)) !
               (length (asked (trace ?st)) + k) =
      (fst (models self ! k),
       select_prompt question (iteration ?st)
         (responses (for_models self question (take k (models self)) ?st)),
       reply_in question (snd (models self ! k))
         (for_models self question (take k (models self)) ?st))"
    by (rule asked_for_models_nth[OF assms(2)])
  have pre: "responses (for_models self question (take k (models self)) ?st) =
      take k (responses (for_models self question (models self) ?st)) @ drop k (responses ?st)"
    by (rule responses_after_prefix[OF assms(1) keys])
  have it: "iteration ?st = int (Suc n)" by simp
  have rs: "responses ?st = responses (round_end self question w n)" by simp
  show ?thesis
    unfolding re using nth unfolding pre it a rs by simp
qed

section \<open>The calls of a round\<close>

lemma world_ask_model:
  "world (ask_model self q m st) =
     snd (snd m (select_prompt q (iteration st) (responses st)) (world st))"
  by (simp add: ask_model_def Let_def)

lemma iteration_before_call: "iteration (before_call self q w n k) = int n"
  by (simp add: before_call_def)

lemma before_call_all:
  "before_call self q w n (length (models self)) = round_end self q w n"
  by (simp add: before_call_def round_end_def round_body_def)

lemma before_call_0:
  "responses (before_call self q w n 0) = responses (loop_head self q w n)"
  "world (before_call self q w n 0) = world (loop_head self q w n)"
  by (simp_all add: before_call_def)

lemma before_call_Suc:
  assumes "k < length (models self)"
  shows "before_call self q w n (Suc k) =
         ask_model self q (models self ! k) (before_call self q w n k)"
  using assms by (simp add: before_call_def take_Suc_conv_app_nth for_models_append)

lemma round_end_from_before_call:
  assumes "k < length (models self)"
  shows "round_end self q w n =
         for_models self q (drop (Suc k) (models self)) (before_call self q w n (Suc k))"
proof -
  have "models self = take (Suc k) (models self) @ drop (Suc k) (models self)"
    by simp
  then have "for_models self q (models self) st =
        for_models self q (drop (Suc k) (models self))
          (for_models self q (take (Suc k) (models self)) st)" for st
    using for_models_append[of self q "take (Suc k) (models self)" "drop (Suc k) (models self)" st]
    by simp
  then show ?thesis
    by (simp add: round_end_def round_body_def before_call_def)
qed

lemma length_asked_for_models:
  "length (asked (trace (for_models self q ms st))) = length (asked (trace st)) + length ms"
  by (induction ms arbitrary: st) simp_all

lemma length_asked_round_end:
  "length (asked (trace (round_end self q w n))) =
   length (asked (trace (loop_head self q w n))) + length (models self)"
  by (simp add: round_end_def round_body_def length_asked_for_models)

lemma asked_round_end_nth:
  assumes "k < length (models self)"
  shows "asked (trace (round_end self q w n)) ! (length (asked (trace (loop_head self q w n))) + k) =
     (fst (models self ! k),
      select_prompt q (int n) (responses (before_call self q w n k)),
      fst (snd (models self ! k)
             (select_prompt q (int n) (responses (before_call self q w n k)))
             (world (before_call self q w n k))))"
proof -
  let ?st = "(loop_head self q w n)
      \<lparr>trace := trace (loop_head self q w n) @ [Iteration (iteration (loop_head self q w n))]\<rparr>"
  have a: "asked (trace ?st) = asked (trace (loop_head self q w n))" by simp
  have "asked (trace (for_models self q (models self) ?st)) ! (length (asked (trace ?st)) + k) =
      (fst (models self ! k),
       select_prompt q (iteration ?st) (responses (for_models self q (take k (models self)) ?st)),
       reply_in q (snd (models self ! k)) (for_models self q (take k (models self)) ?st))"
    by (rule asked_for_models_nth[OF assms])
  then show ?thesis
    unfolding a by (simp add: round_end_def round_body_def before_call_def reply_in_def)
qed

lemma map_of_nth_distinct:
  assumes "distinct (map fst d)" "k < length d"
  shows "map_of d (fst (d ! k)) = Some (snd (d ! k))"
proof -
  have "(fst (d ! k), snd (d ! k)) \<in> set d"
    using assms(2) by simp
  with assms(1) show ?thesis by (rule map_of_is_SomeI)
qed

lemma responses_round_end_nth:
  assumes "distinct (dict_keys (models self))" "k < length (models self)"
  shows "responses (round_end self q w n) ! k =
     (fst (models self ! k),
      fst (snd (models self ! k)
             (select_prompt q (int n) (responses (before_call self q w n k)))
             (world (before_call self q w n k))))"
proof -
  let ?r = "fst (snd (models self ! k)
             (select_prompt q (int n) (responses (before_call self q w n k)))
             (world (before_call self q w n k)))"
  let ?d = "responses (round_end self q w n)"
  have keys: "dict_keys ?d = dict_keys (models self)"
    by (rule keys_round_end[OF assms(1)])
  then have len: "k < length ?d"
    using assms(2) by (metis dict_keys_def length_map)
  have key: "fst (?d ! k) = fst (models self ! k)"
  proof -
    have "fst (?d ! k) = dict_keys ?d ! k"
      using len by (simp add: dict_keys_def)
    also have "\<dots> = dict_keys (models self) ! k" by (simp only: keys)
    also have "\<dots> = fst (models self ! k)"
      using assms(2) by (simp add: dict_keys_def)
    finally show ?thesis .
  qed
  have "distinct (take (Suc k) (dict_keys (models self)) @ drop (Suc k) (dict_keys (models self)))"
    using assms(1) by simp
  moreover have "fst (models self ! k) \<in> set (take (Suc k) (dict_keys (models self)))"
    using assms(2) by (simp add: dict_keys_def take_Suc_conv_app_nth)
  ultimately have fresh: "fst (models self ! k) \<notin> set (dict_keys (drop (Suc k) (models self)))"
    by (auto simp: dict_keys_def drop_map simp del: append_take_drop_id)
  have "map_of ?d (fst (models self ! k)) =
        map_of (responses (before_call self q w n (Suc k))) (fst (models self ! k))"
    by (simp only: round_end_from_before_call[OF assms(2), of q w n]
          map_of_for_models_other[OF fresh])
  also have "\<dots> = Some ?r"
    by (simp add: before_call_Suc[OF assms(2)] map_of_dict_set reply_in_def
          iteration_before_call)
  finally have m: "map_of ?d (fst (models self ! k)) = Some ?r" .
  have "distinct (map fst ?d)"
    using keys assms(1) by (simp add: dict_keys_def)
  from map_of_nth_distinct[OF this len] key m have "snd (?d ! k) = ?r" by simp
  with key show ?thesis by (simp add: prod_eq_iff)
qed

text \<open>
  C7: in every round, each registered model's gateway is called once, in registration
  order. The \<open>k\<close>-th call of the round is the call of the \<open>k\<close>-th registered model:
  its gateway is applied to the prompt selected from the responses as they stand then and
  to the world as the calls before it left it, and the reply it returns is what the trace
  records and what \<open>responses\<close> holds for that model at the end of the round. The keys of
  \<open>responses\<close> at the end of the round are the keys of \<open>models\<close>, whatever the
  gateways reply. Over a whole run, the gateways called are the registered models in
  order, once per round started.
\<close>

theorem every_round_asks_every_model:
  assumes "distinct (dict_keys (models self))"
  shows "dict_keys (responses (round_end self question w n)) = dict_keys (models self) \<and>
         map fst (asked (trace (round_end self question w n))) =
           map fst (asked (trace (loop_head self question w n))) @ dict_keys (models self) \<and>
         map fst (asked (trace (snd (run self question w)))) =
           concat (replicate (length (iterations (trace (snd (run self question w)))))
                     (dict_keys (models self))) \<and>
         length (asked (trace (round_end self question w n))) =
           length (asked (trace (loop_head self question w n))) + length (models self) \<and>
         responses (before_call self question w n 0) = responses (loop_head self question w n) \<and>
         world (before_call self question w n 0) = world (loop_head self question w n) \<and>
         before_call self question w n (length (models self)) = round_end self question w n \<and>
         (k < length (models self) \<longrightarrow>
            asked (trace (round_end self question w n)) !
                (length (asked (trace (loop_head self question w n))) + k) =
              (fst (models self ! k),
               select_prompt question (int n) (responses (before_call self question w n k)),
               fst (snd (models self ! k)
                      (select_prompt question (int n) (responses (before_call self question w n k)))
                      (world (before_call self question w n k)))) \<and>
            responses (round_end self question w n) ! k =
              (fst (models self ! k),
               fst (snd (models self ! k)
                      (select_prompt question (int n) (responses (before_call self question w n k)))
                      (world (before_call self question w n k)))) \<and>
            world (before_call self question w n (Suc k)) =
              snd (snd (models self ! k)
                     (select_prompt question (int n) (responses (before_call self question w n k)))
                     (world (before_call self question w n k))) \<and>
            responses (before_call self question w n (Suc k)) =
              dict_set (responses (before_call self question w n k)) (fst (models self ! k))
                (fst (snd (models self ! k)
                        (select_prompt question (int n)
                           (responses (before_call self question w n k)))
                        (world (before_call self question w n k)))))"
proof -
  have step: "k < length (models self) \<longrightarrow>
      world (before_call self question w n (Suc k)) =
        snd (snd (models self ! k)
               (select_prompt question (int n) (responses (before_call self question w n k)))
               (world (before_call self question w n k))) \<and>
      responses (before_call self question w n (Suc k)) =
        dict_set (responses (before_call self question w n k)) (fst (models self ! k))
          (fst (snd (models self ! k)
                  (select_prompt question (int n) (responses (before_call self question w n k)))
                  (world (before_call self question w n k))))"
    by (simp add: before_call_Suc world_ask_model reply_in_def iteration_before_call)
  show ?thesis
    using keys_round_end[OF assms, of question w n] asked_names_round_end[of self question w n]
      run_asked_names[of self question w] length_asked_round_end[of self question w n]
      before_call_0[of self question w n] before_call_all[of self question w n]
      asked_round_end_nth[of k self question w n]
      responses_round_end_nth[OF assms, of k question w n] step
    by simp
qed

section \<open>Runs without agents or without rounds\<close>

text \<open>
  C9, amended: the constructor validates nothing; it always registers the three gateways
  and sets \<open>max_iterations\<close> to 5. A configuration with no agents or with
  \<open>max_iterations \<le> 0\<close> is not rejected before the run: with no agents (and
  \<open>max_iterations\<close> at least 1) \<open>get_consensus\<close> fails with \<open>IndexError\<close> after
  round 0 has run and consensus has been declared, and with \<open>max_iterations \<le> 0\<close> it
  fails with \<open>IndexError\<close> after the loop, without any round.
\<close>

theorem misconfiguration_surfaces_in_the_run:
  "dict_keys (models (init chatgpt gemini claude)) = [''ChatGPT'', ''Gemini'', ''Claude''] \<and>
   max_iterations (init chatgpt gemini claude) = 5 \<and>
   (models self = [] \<and> 1 \<le> max_iterations self \<longrightarrow>
      run self question w =
        (Inl IndexError, (initial w)\<lparr>trace := [Iteration 0, Consensus_reached]\<rparr>)) \<and>
   (max_iterations self \<le> 0 \<longrightarrow>
      run self question w =
        (Inl IndexError, (initial w)\<lparr>trace := [Max_iterations_reached]\<rparr>))"
  using run_no_models[of self question w] run_no_iterations[of self question w]
  by (simp add: init_def)

text \<open>
  C10, amended: the lookup of the first response is in bounds, and \<open>get_consensus\<close>
  returns a string, in every run with at least one registered agent and
  \<open>max_iterations\<close> at least 1. With no registered agent \<open>get_consensus\<close> does not
  return a string but fails with \<open>IndexError\<close> on that lookup; when \<open>max_iterations\<close>
  is at least 1 this happens in round 0, whose empty \<open>responses\<close> pass the consensus
  check.
\<close>

theorem first_response_lookup:
  "(models self \<noteq> [] \<and> 1 \<le> max_iterations self \<longrightarrow>
      (\<exists>s. get_consensus self question w = Inr s) \<and>
      (\<exists>t. first_response (responses (snd (run self question w))) = Inr t)) \<and>
   (models self = [] \<longrightarrow>
      get_consensus self question w = Inl IndexError \<and>
      first_response (responses (snd (run self question w))) = Inl IndexError) \<and>
   (models self = [] \<and> 1 \<le> max_iterations self \<longrightarrow>
      responses (round_end self question w 0) = [] \<and>
      check_consensus (responses (round_end self question w 0)) \<and>
      trace (snd (run self question w)) = [Iteration 0, Consensus_reached])"
proof -
  have a: "models self \<noteq> [] \<and> 1 \<le> max_iterations self \<longrightarrow>
      (\<exists>s. get_consensus self question w = Inr s) \<and>
      (\<exists>t. first_response (responses (snd (run self question w))) = Inr t)"
    using run_returns_string[of self question w] by blast
  have b: "models self = [] \<longrightarrow>
      get_consensus self question w = Inl IndexError \<and>
      first_response (responses (snd (run self question w))) = Inl IndexError"
  proof (cases "1 \<le> max_iterations self")
    case True
    then show ?thesis
      using run_no_models[of self question w]
      by (simp add: get_consensus_def first_response_def)
  next
    case False
    then show ?thesis
      using run_no_iterations[of self question w]
      by (simp add: get_consensus_def first_response_def)
  qed
  have c: "models self = [] \<and> 1 \<le> max_iterations self \<longrightarrow>
      responses (round_end self question w 0) = [] \<and>
      check_consensus (responses (round_end self question w 0)) \<and>
      trace (snd (run self question w)) = [Iteration 0, Consensus_reached]"
    using run_no_models[of self question w] round_end_no_models[of self question w]
    by (simp add: check_consensus_def)
  from a b c show ?thesis by blast
qed

section \<open>Concrete runs\<close>

lemmas run_eval =
  run_def initial_def round_body_def ask_model_def Let_def is_first_key_def
  select_prompt_def check_consensus_def final_answer_def
  first_response_def init_def ask_chatgpt_def ask_gemini_def ask_claude_def scripted_def
  get_consensus_def

lemma parse_scripts:
  "parse_content ''True\<newline>first'' = \<lparr>agrees = True, response = ''first''\<rparr>"
  "parse_content ''True\<newline>merged'' = \<lparr>agrees = True, response = ''merged''\<rparr>"
  "parse_content ''False\<newline>'' = \<lparr>agrees = False, response = ''''\<rparr>"
  "parse_content ''False\<newline>objection'' = \<lparr>agrees = False, response = ''objection''\<rparr>"
  "parse_content ''False\<newline>old'' = \<lparr>agrees = False, response = ''old''\<rparr>"
  "parse_content ''False\<newline>new'' = \<lparr>agrees = False, response = ''new''\<rparr>"
  by (simp_all add: parse_eval)

lemma eager_run:
  "run eager ''q'' 0 =
     (Inr ''first'',
      \<lparr>iteration = 0,
       responses = [(''ChatGPT'', \<lparr>agrees = True, response = ''first''\<rparr>),
                    (''Gemini'', \<lparr>agrees = True, response = ''first''\<rparr>),
                    (''Claude'', \<lparr>agrees = True, response = ''first''\<rparr>)],
       merged_response = None, world = 3,
       trace = [Iteration 0,
                Asked ''ChatGPT'' ''q'' \<lparr>agrees = True, response = ''first''\<rparr>,
                Asked ''Gemini'' ''q'' \<lparr>agrees = True, response = ''first''\<rparr>,
                Asked ''Claude'' ''q'' \<lparr>agrees = True, response = ''first''\<rparr>,
                Consensus_reached]\<rparr>)"
  by (simp add: eager_def eager_script_def while_loop.simps run_eval parse_scripts)

lemma eager_candidate: "candidate_answer eager ''q'' 0 = Some ''merged''"
  by (simp add: candidate_answer_def reply_in_def loop_head.simps
        eager_def eager_script_def run_eval parse_scripts)

text \<open>
  C1, as the claim states it, fails: with three gateways that always agree, the run
  announces round 0 only, declares consensus there and returns the first gateway's reply
  of round 0 (\<open>"first"\<close>), not the reply it would give in round 1 (\<open>"merged"\<close>).
\<close>

theorem all_agree_returns_in_round_0:
  "get_consensus eager ''q'' 0 = Inr ''first'' \<and>
   iterations (trace (snd (run eager ''q'' 0))) = [0] \<and>
   last (trace (snd (run eager ''q'' 0))) = Consensus_reached \<and>
   candidate_answer eager ''q'' 0 = Some ''merged''"
  by (simp add: eager_run eager_candidate get_consensus_def)

lemma eager_agrees: "agrees (parse_content (eager_script w))"
  by (simp add: eager_script_def parse_scripts)

text \<open>C1, amended, at a concrete run.\<close>

theorem all_agree_returns_at_round_0_witness:
  "distinct (dict_keys (models eager)) \<and> 1 \<le> max_iterations eager \<and>
   get_consensus eager ''q'' 0 = Inr ''first'' \<and>
   iterations (trace (snd (run eager ''q'' 0))) = [0] \<and>
   last (trace (snd (run eager ''q'' 0))) = Consensus_reached"
proof -
  have h1: "models eager = (''ChatGPT'', ask_chatgpt (scripted eager_script)) #
      [(''Gemini'', ask_gemini (scripted eager_script)),
       (''Claude'', ask_claude (scripted eager_script))]"
    by (simp add: eager_def init_def)
  have h2: "distinct (dict_keys (models eager))"
    by (simp add: h1)
  have h3: "1 \<le> max_iterations eager"
    by (simp add: eager_def init_def)
  have h4: "\<forall>x \<in> set (models eager). \<forall>p w'. agrees (fst (snd x p w'))"
    by (simp add: h1 ask_chatgpt_def ask_gemini_def ask_claude_def scripted_def eager_agrees)
  from all_agree_returns_at_round_0[OF h1 h2 h3 h4, of "''q''" 0] h2 h3 show ?thesis
    by (simp add: ask_chatgpt_def scripted_def eager_script_def parse_scripts)
qed

lemma init_models:
  "models (init a b c) = (''ChatGPT'', ask_chatgpt a) # [(''Gemini'', ask_gemini b), (''Claude'', ask_claude c)]"
  by (simp add: init_def)

lemma init_distinct: "distinct (dict_keys (models (init a b c)))"
  by (simp add: init_def)

lemma stubborn_disagrees: "\<not> agrees (parse_content (stubborn_script w))"
  by (simp add: stubborn_script_def parse_scripts)

lemma revising_disagrees: "\<not> agrees (parse_content (revising_script w))"
  by (simp add: revising_script_def parse_scripts)

lemma single_round_round_0:
  "responses (round_end single_round ''q'' 0 0) =
     [(''ChatGPT'', \<lparr>agrees = False, response = ''objection''\<rparr>),
      (''Gemini'', \<lparr>agrees = False, response = ''objection''\<rparr>),
      (''Claude'', \<lparr>agrees = False, response = ''objection''\<rparr>)]"
  by (simp add: round_end_def loop_head.simps single_round_def stubborn_def stubborn_script_def
        run_eval parse_scripts)

text \<open>C8 at a concrete run.\<close>

theorem one_round_without_consensus_witness:
  "max_iterations single_round = 1 \<and>
   \<not> check_consensus (responses (round_end single_round ''q'' 0 0)) \<and>
   get_consensus single_round ''q'' 0 = Inr ''objection'' \<and>
   iterations (trace (snd (run single_round ''q'' 0))) = [0] \<and>
   map (fst \<circ> snd) (asked (trace (snd (run single_round ''q'' 0)))) = [''q'', ''q'', ''q''] \<and>
   merged_response (snd (run single_round ''q'' 0)) = None"
proof -
  have h1: "max_iterations single_round = 1"
    by (simp add: single_round_def)
  have h2: "distinct (dict_keys (models single_round))"
    by (simp add: single_round_def stubborn_def init_distinct)
  have h3: "\<not> check_consensus (responses (round_end single_round ''q'' 0 0))"
    by (simp add: single_round_round_0 check_consensus_def dict_values_def)
  have ms: "models single_round = (''ChatGPT'', ask_chatgpt (scripted stubborn_script)) #
      [(''Gemini'', ask_gemini (scripted stubborn_script)),
       (''Claude'', ask_claude (scripted stubborn_script))]"
    by (simp add: single_round_def stubborn_def init_models)
  from one_round_without_consensus[OF h1 h2 h3]
  obtain m rest where m: "models single_round = m # rest"
    and r: "get_consensus single_round ''q'' 0 = Inr (response (fst (snd m ''q'' 0)))"
       "iterations (trace (snd (run single_round ''q'' 0))) = [0]"
       "map (fst \<circ> snd) (asked (trace (snd (run single_round ''q'' 0)))) =
          replicate (length (models single_round)) ''q''"
       "merged_response (snd (run single_round ''q'' 0)) = None"
    by blast
  from m ms have "m = (''ChatGPT'', ask_chatgpt (scripted stubborn_script))"
    by simp
  then have "response (fst (snd m ''q'' 0)) = ''objection''"
    by (simp add: ask_chatgpt_def scripted_def stubborn_script_def parse_scripts)
  with r h1 h3 ms show ?thesis
    by (simp add: numeral_3_eq_3)
qed

lemma stubborn_run:
  "get_consensus stubborn ''q'' 0 = Inr ''objection'' \<and>
   merged_response (snd (run stubborn ''q'' 0)) = Some '''' \<and>
   iterations (trace (snd (run stubborn ''q'' 0))) = [0, 1, 2, 3, 4]"
  by (simp add: stubborn_def stubborn_script_def while_loop.simps run_eval parse_scripts)

lemma stubborn_candidate: "candidate_answer stubborn ''q'' 0 = Some ''''"
  by (simp add: candidate_answer_def reply_in_def loop_head.simps
        stubborn_def stubborn_script_def run_eval parse_scripts)

text \<open>
  C5, as the claim states it, fails: when the first gateway's reply in round 1 has an
  empty text, the candidate answer is the empty string, which Python takes for false, and
  the run returns the first gateway's text of the last round (\<open>"objection"\<close>) instead.
\<close>

theorem empty_candidate_is_not_returned:
  "get_consensus stubborn ''q'' 0 = Inr ''objection'' \<and>
   candidate_answer stubborn ''q'' 0 = Some '''' \<and>
   merged_response (snd (run stubborn ''q'' 0)) = Some '''' \<and>
   iterations (trace (snd (run stubborn ''q'' 0))) = [0, 1, 2, 3, 4]"
  by (simp add: stubborn_run stubborn_candidate)

lemma revising_candidate: "candidate_answer revising ''q'' 0 = Some ''new''"
  by (simp add: candidate_answer_def reply_in_def loop_head.simps
        revising_def revising_script_def run_eval parse_scripts)

lemma revising_rounds: "iterations (trace (snd (run revising ''q'' 0))) = [0, 1, 2, 3, 4]"
  by (simp add: revising_def revising_script_def while_loop.simps run_eval parse_scripts)

text \<open>C5, amended, at a concrete run.\<close>

theorem no_consensus_runs_all_rounds_witness:
  "max_iterations revising = 5 \<and>
   get_consensus revising ''q'' 0 = Inr ''new'' \<and>
   merged_response (snd (run revising ''q'' 0)) = Some ''new'' \<and>
   iterations (trace (snd (run revising ''q'' 0))) = [0, 1, 2, 3, 4] \<and>
   last (trace (snd (run revising ''q'' 0))) = Max_iterations_reached"
proof -
  have h1: "max_iterations revising = 5"
    by (simp add: revising_def init_def)
  have h2: "distinct (dict_keys (models revising))"
    by (simp add: revising_def init_distinct)
  have h3: "(''Gemini'', ask_gemini (scripted revising_script)) \<in> set (models revising)"
    by (simp add: revising_def init_models)
  have h4: "\<forall>p w'. \<not> agrees (fst (ask_gemini (scripted revising_script) p w'))"
    by (simp add: ask_gemini_def scripted_def revising_disagrees)
  from no_consensus_runs_all_rounds[OF h1 h2 h3 h4, of "''q''" 0] h1 revising_candidate
  show ?thesis by auto
qed

text \<open>C3 at a concrete run.\<close>

theorem merged_response_assigned_once_witness:
  "distinct (dict_keys (models revising)) \<and>
   merged_response (snd (run revising ''q'' 0)) = Some ''new'' \<and>
   stored (trace (snd (run revising ''q'' 0))) = [''new'']"
proof -
  have h: "distinct (dict_keys (models revising))"
    by (simp add: revising_def init_distinct)
  from merged_response_assigned_once[OF h, of "''q''" 0] h show ?thesis
    by (simp add: revising_rounds revising_candidate option_list_def)
qed

lemma revising_round_0:
  "responses (round_end revising ''q'' 0 0) =
     [(''ChatGPT'', old_reply), (''Gemini'', old_reply), (''Claude'', old_reply)] \<and>
   asked (trace (round_end revising ''q'' 0 0)) =
     [(''ChatGPT'', ''q'', old_reply), (''Gemini'', ''q'', old_reply), (''Claude'', ''q'', old_reply)]"
  by (simp add: round_end_def loop_head.simps revising_def revising_script_def
        run_eval parse_scripts old_reply_def)

lemma revising_round_1:
  "responses (round_end revising ''q'' 0 (Suc 0)) =
     [(''ChatGPT'', new_reply), (''Gemini'', new_reply), (''Claude'', new_reply)] \<and>
   asked (trace (round_end revising ''q'' 0 (Suc 0))) =
     [(''ChatGPT'', ''q'', old_reply), (''Gemini'', ''q'', old_reply), (''Claude'', ''q'', old_reply),
      (''ChatGPT'',
       create_merge_prompt ''q''
         [(''ChatGPT'', old_reply), (''Gemini'', old_reply), (''Claude'', old_reply)],
       new_reply),
      (''Gemini'',
       create_merge_prompt ''q''
         [(''ChatGPT'', new_reply), (''Gemini'', old_reply), (''Claude'', old_reply)],
       new_reply),
      (''Claude'',
       create_merge_prompt ''q''
         [(''ChatGPT'', new_reply), (''Gemini'', new_reply), (''Claude'', old_reply)],
       new_reply)]"
  by (simp add: round_end_def loop_head.simps revising_def revising_script_def
        run_eval parse_scripts old_reply_def new_reply_def)

lemma merge_prompts_differ:
  "create_merge_prompt ''q''
     [(''ChatGPT'', new_reply), (''Gemini'', old_reply), (''Claude'', old_reply)] \<noteq>
   create_merge_prompt ''q''
     [(''ChatGPT'', old_reply), (''Gemini'', old_reply), (''Claude'', old_reply)]"
  by (simp add: create_merge_prompt_def prompt_header_def old_reply_def new_reply_def)

text \<open>
  C2, as the claim states it, fails: \<open>responses\<close> is one dictionary, updated in place
  as each gateway replies. In round 1 the prompt given to the second gateway already
  lists the first gateway's reply of round 1 (\<open>"new"\<close>), not its reply of round 0
  (\<open>"old"\<close>).
\<close>

theorem later_prompt_lists_this_rounds_reply:
  "fst (snd (asked (trace (round_end revising ''q'' 0 1)) ! 4)) =
     create_merge_prompt ''q''
       [(''ChatGPT'', new_reply), (''Gemini'', old_reply), (''Claude'', old_reply)] \<and>
   responses (round_end revising ''q'' 0 0) =
     [(''ChatGPT'', old_reply), (''Gemini'', old_reply), (''Claude'', old_reply)] \<and>
   fst (snd (asked (trace (round_end revising ''q'' 0 1)) ! 4)) \<noteq>
     create_merge_prompt ''q'' (responses (round_end revising ''q'' 0 0))"
  using merge_prompts_differ by (simp add: revising_round_0 revising_round_1 eval_nat_numeral)

text \<open>C2, amended, at a concrete run.\<close>

theorem prompt_lists_replies_so_far_witness:
  "distinct (dict_keys (models revising)) \<and> (1::nat) < length (models revising) \<and>
   fst (asked (trace (round_end revising ''q'' 0 1)) ! 4) = ''Gemini'' \<and>
   fst (snd (asked (trace (round_end revising ''q'' 0 1)) ! 4)) =
     create_merge_prompt ''q''
       [(''ChatGPT'', new_reply), (''Gemini'', old_reply), (''Claude'', old_reply)]"
proof -
  have h1: "distinct (dict_keys (models revising))"
    by (simp add: revising_def init_distinct)
  have h2: "(1::nat) < length (models revising)"
    by (simp add: revising_def init_def)
  have m: "fst (models revising ! 1) = ''Gemini''"
    by (simp add: revising_def init_def)
  from prompt_lists_replies_so_far[OF h1 h2, of "''q''" 0 0] h1 h2 m show ?thesis
    by (simp add: revising_round_0 revising_round_1 select_prompt_def eval_nat_numeral)
qed

lemma revising_before_call:
  "responses (before_call revising ''q'' 0 (Suc 0) (Suc 0)) =
     [(''ChatGPT'', new_reply), (''Gemini'', old_reply), (''Claude'', old_reply)] \<and>
   world (before_call revising ''q'' 0 (Suc 0) (Suc 0)) = 4"
  by (simp add: before_call_def loop_head.simps revising_def revising_script_def
        run_eval parse_scripts old_reply_def new_reply_def)

text \<open>C7 at a concrete run.\<close>

theorem every_round_asks_every_model_witness:
  "distinct (dict_keys (models revising)) \<and> (1::nat) < length (models revising) \<and>
   dict_keys (responses (round_end revising ''q'' 0 1)) = [''ChatGPT'', ''Gemini'', ''Claude''] \<and>
   asked (trace (round_end revising ''q'' 0 1)) ! 4 =
     (''Gemini'',
      create_merge_prompt ''q''
        [(''ChatGPT'', new_reply), (''Gemini'', old_reply), (''Claude'', old_reply)],
      new_reply) \<and>
   responses (round_end revising ''q'' 0 1) ! 1 = (''Gemini'', new_reply) \<and>
   world (before_call revising ''q'' 0 1 2) = 5"
proof -
  have h: "distinct (dict_keys (models revising))"
    by (simp add: revising_def init_distinct)
  have l: "(1::nat) < length (models revising)"
    by (simp add: revising_def init_def)
  have k: "dict_keys (models revising) = [''ChatGPT'', ''Gemini'', ''Claude'']"
    by (simp add: revising_def init_def)
  have m: "models revising ! Suc 0 = (''Gemini'', ask_gemini (scripted revising_script))"
    by (simp add: revising_def init_def)
  have g: "3 \<le> v \<Longrightarrow> ask_gemini (scripted revising_script) p v = (new_reply, Suc v)" for p v
    by (simp add: ask_gemini_def scripted_def revising_script_def parse_scripts new_reply_def)
  from every_round_asks_every_model[OF h, of "''q''" 0 "Suc 0" "Suc 0"] h l k m
  show ?thesis
    by (simp add: revising_round_0 revising_before_call select_prompt_def g eval_nat_numeral)
qed

text \<open>
  C9, as the claim states it, fails: nothing checks the configuration. With no model
  registered, \<open>get_consensus\<close> announces round 0, declares consensus and only then
  fails, on the lookup of the first response.
\<close>

theorem no_models_fails_after_round_0:
  "get_consensus no_models ''q'' 0 = Inl IndexError \<and>
   trace (snd (run no_models ''q'' 0)) = [Iteration 0, Consensus_reached] \<and>
   models no_models = []"
  by (simp add: no_models_def eager_def while_loop.simps run_eval dict_values_def)

text \<open>C9, amended, at a concrete run.\<close>

theorem misconfiguration_surfaces_in_the_run_witness:
  "models no_models = [] \<and> 1 \<le> max_iterations no_models \<and>
   run no_models ''q'' 0 =
     (Inl IndexError, (initial 0)\<lparr>trace := [Iteration 0, Consensus_reached]\<rparr>) \<and>
   max_iterations no_rounds \<le> 0 \<and>
   run no_rounds ''q'' 0 =
     (Inl IndexError, (initial 0)\<lparr>trace := [Max_iterations_reached]\<rparr>)"
proof -
  have h1: "models no_models = [] \<and> 1 \<le> max_iterations no_models"
    by (simp add: no_models_def eager_def init_def)
  have h2: "max_iterations no_rounds \<le> 0"
    by (simp add: no_rounds_def)
  from misconfiguration_surfaces_in_the_run[of "scripted eager_script" "scripted eager_script"
        "scripted eager_script" no_models "''q''" 0]
    misconfiguration_surfaces_in_the_run[of "scripted eager_script" "scripted eager_script"
        "scripted eager_script" no_rounds "''q''" 0]
    h1 h2
  show ?thesis by simp
qed

text \<open>
  C10, as the claim states it, fails: with three registered models and
  \<open>max_iterations = 0\<close> no round runs, \<open>responses\<close> is still empty at the lookup after
  the loop, and \<open>get_consensus\<close> fails with \<open>IndexError\<close>.
\<close>

theorem no_rounds_fails_with_three_models:
  "get_consensus no_rounds ''q'' 0 = Inl IndexError \<and>
   dict_keys (models no_rounds) = [''ChatGPT'', ''Gemini'', ''Claude''] \<and>
   trace (snd (run no_rounds ''q'' 0)) = [Max_iterations_reached]"
  by (simp add: no_rounds_def eager_def while_loop.simps run_eval dict_values_def)

text \<open>C10, amended, at a concrete run.\<close>

theorem first_response_lookup_witness:
  "models eager \<noteq> [] \<and> 1 \<le> max_iterations eager \<and>
   (\<exists>s. get_consensus eager ''q'' 0 = Inr s) \<and>
   models no_models = [] \<and> 1 \<le> max_iterations no_models \<and>
   get_consensus no_models ''q'' 0 = Inl IndexError \<and>
   check_consensus (responses (round_end no_models ''q'' 0 0)) \<and>
   trace (snd (run no_models ''q'' 0)) = [Iteration 0, Consensus_reached]"
proof -
  have h1: "models eager \<noteq> [] \<and> 1 \<le> max_iterations eager"
    by (simp add: eager_def init_def)
  have h2: "models no_models = [] \<and> 1 \<le> max_iterations no_models"
    by (simp add: no_models_def eager_def init_def)
  from first_response_lookup[of eager "''q''" 0] first_response_lookup[of no_models "''q''" 0]
    h1 h2
  show ?thesis by (simp add: check_consensus_def dict_values_def)
qed

end
